theory Spec2Isabelle
  imports Complex_Main "HOL-Library.Word" "HOL-Library.Log_Nat"
begin

unbundle bit_operations_syntax

section \<open>Data model\<close>

text \<open>
  The static evaluator of Ethereal (\<^verbatim>\<open>src/evaluate.c\<close>, \<^verbatim>\<open>src/psqt.c\<close>) works on
  64-bit bitboards: bit \<open>8 * rank + file\<close> stands for a square, A1 being bit 0.
  Colours and piece kinds are the enums of \<^verbatim>\<open>types.h\<close>; arrays indexed by them are
  functions of the enum.
\<close>

type_synonym bitboard = "64 word"

datatype Colour = WHITE | BLACK

datatype Piece = PAWN | KNIGHT | BISHOP | ROOK | QUEEN | KING

text \<open>The C expression \<^verbatim>\<open>!colour\<close>.\<close>

fun notColour :: "Colour \<Rightarrow> Colour" where
  "notColour WHITE = BLACK"
| "notColour BLACK = WHITE"

text \<open>
  The part of \<^verbatim>\<open>Board\<close> the evaluator reads: the occupancy of each side, the
  bitboard of each piece kind, the side to move, the running PSQT and material total
  and the pawn-king hash.
\<close>

record Board =
  pieces :: "Piece \<Rightarrow> bitboard"
  colours :: "Colour \<Rightarrow> bitboard"
  turn :: Colour
  psqtmat :: int
  pkhash :: "64 word"

subsection \<open>Packed scores\<close>

text \<open>
  Modelled from the spec: the macros \<^verbatim>\<open>MakeScore\<close>, \<^verbatim>\<open>ScoreMG\<close> and \<^verbatim>\<open>ScoreEG\<close> of
  \<^verbatim>\<open>evaluate.h\<close>, which is not among the sources. A score packs the endgame half into
  the high 16 bits of a C \<^verbatim>\<open>int\<close> and the middlegame half into the low 16 bits; both
  extractions read 16 bits as a two's complement number, the endgame one after adding
  \<^verbatim>\<open>0x8000\<close> to undo the borrow of a negative middlegame half. Sums of packed scores
  are sums of integers; only bits 0 to 31 of a sum reach the extractions, so the
  wrap-around of a 32-bit \<^verbatim>\<open>int\<close> changes nothing that they return.
\<close>

definition MakeScore :: "int \<Rightarrow> int \<Rightarrow> int" where
  "MakeScore mg eg = eg * 65536 + mg"

definition ScoreMG :: "int \<Rightarrow> int" where
  "ScoreMG s = sint (word_of_int s :: 16 word)"

definition ScoreEG :: "int \<Rightarrow> int" where
  "ScoreEG s = sint (word_of_int ((s + 32768) div 65536) :: 16 word)"

abbreviation S :: "int \<Rightarrow> int \<Rightarrow> int" where
  "S mg eg \<equiv> MakeScore mg eg"

text \<open>C's \<^verbatim>\<open>/\<close> on \<^verbatim>\<open>int\<close> truncates towards zero.\<close>

definition cdiv :: "int \<Rightarrow> int \<Rightarrow> int" where
  "cdiv a b = sgn a * sgn b * (\<bar>a\<bar> div \<bar>b\<bar>)"

subsection \<open>Bitboard utilities\<close>

text \<open>
  Modelled from the spec: the square and bit utilities of \<^verbatim>\<open>bitboards.c\<close> (not among
  the sources) that the spec lists under the consumed interfaces: \<^verbatim>\<open>popcount\<close>,
  \<^verbatim>\<open>getlsb\<close>, \<^verbatim>\<open>getmsb\<close>, \<^verbatim>\<open>poplsb\<close>, \<^verbatim>\<open>setBit\<close>, \<^verbatim>\<open>testBit\<close>, \<^verbatim>\<open>onlyOne\<close>, \<^verbatim>\<open>fileOf\<close>,
  \<^verbatim>\<open>rankOf\<close>, \<^verbatim>\<open>relativeRankOf\<close>, \<^verbatim>\<open>mirrorFile\<close>, \<^verbatim>\<open>distanceBetween\<close>, \<^verbatim>\<open>backmost\<close>, and
  the constants \<^verbatim>\<open>Files\<close>, \<^verbatim>\<open>Ranks\<close>, \<^verbatim>\<open>WHITE_SQUARES\<close> and \<^verbatim>\<open>BLACK_SQUARES\<close>. Squares,
  files and ranks are C \<^verbatim>\<open>int\<close>s.
\<close>

definition popcount :: "bitboard \<Rightarrow> int" where
  "popcount bb = int (length (filter (bit bb) [0..<64]))"

definition getlsb :: "bitboard \<Rightarrow> int" where
  "getlsb bb = int (length (takeWhile (\<lambda>n. \<not> bit bb n) [0..<64]))"

definition getmsb :: "bitboard \<Rightarrow> int" where
  "getmsb bb = 63 - int (length (takeWhile (\<lambda>n. \<not> bit bb n) (rev [0..<64])))"

text \<open>\<^verbatim>\<open>poplsb(&bb)\<close> returns the lowest set square and clears it: \<^verbatim>\<open>*bb &= *bb - 1\<close>.\<close>

definition poplsb :: "bitboard \<Rightarrow> int \<times> bitboard" where
  "poplsb bb = (getlsb bb, bb AND (bb - 1))"

definition setBit :: "bitboard \<Rightarrow> int \<Rightarrow> bitboard" where
  "setBit bb sq = bb OR push_bit (nat sq) 1"

definition testBit :: "bitboard \<Rightarrow> int \<Rightarrow> bool" where
  "testBit bb sq = bit bb (nat sq)"

definition onlyOne :: "bitboard \<Rightarrow> bool" where
  "onlyOne bb = (bb \<noteq> 0 \<and> bb AND (bb - 1) = 0)"

definition fileOf :: "int \<Rightarrow> int" where
  "fileOf sq = sq mod 8"

definition rankOf :: "int \<Rightarrow> int" where
  "rankOf sq = sq div 8"

definition relativeRankOf :: "Colour \<Rightarrow> int \<Rightarrow> int" where
  "relativeRankOf colour sq = (if colour = WHITE then rankOf sq else 7 - rankOf sq)"

definition mirrorFile :: "int \<Rightarrow> int" where
  "mirrorFile file = [0, 1, 2, 3, 3, 2, 1, 0] ! nat file"

definition distanceBetween :: "int \<Rightarrow> int \<Rightarrow> int" where
  "distanceBetween s1 s2 = max \<bar>fileOf s1 - fileOf s2\<bar> \<bar>rankOf s1 - rankOf s2\<bar>"

definition backmost :: "Colour \<Rightarrow> bitboard \<Rightarrow> int" where
  "backmost colour bb = (if colour = WHITE then getlsb bb else getmsb bb)"

definition Files :: "int \<Rightarrow> bitboard" where
  "Files file = push_bit (nat file) 0x0101010101010101"

definition Ranks :: "int \<Rightarrow> bitboard" where
  "Ranks rank = push_bit (8 * nat rank) 0xFF"

definition WHITE_SQUARES :: bitboard where
  "WHITE_SQUARES = 0x55AA55AA55AA55AA"

definition BLACK_SQUARES :: bitboard where
  "BLACK_SQUARES = 0xAA55AA55AA55AA55"

text \<open>
  Every piece loop of the evaluator has the shape
  \<^verbatim>\<open>while (bb) { sq = poplsb(&bb); body }\<close>. \<open>whileBits body bb s\<close> runs it: the body
  gets the square popped, the squares still to come (the stacked-pawn test reads them)
  and the state.
\<close>

function whileBits :: "(int \<Rightarrow> bitboard \<Rightarrow> 's \<Rightarrow> 's) \<Rightarrow> bitboard \<Rightarrow> 's \<Rightarrow> 's" where
  "whileBits body bb s =
     (if bb = 0 then s
      else let (sq, bb') = poplsb bb in whileBits body bb' (body sq bb' s))"
  by pat_completeness auto
termination
proof (relation "measure (\<lambda>(body, bb, s). unat bb)")
  fix body :: "int \<Rightarrow> bitboard \<Rightarrow> 's \<Rightarrow> 's" and bb :: bitboard and s :: 's
    and x :: "int \<times> bitboard" and sq :: int and bb' :: bitboard
  assume nz: "bb \<noteq> 0" and x: "x = poplsb bb" and p: "(sq, bb') = x"
  have "bb AND (bb - 1) \<le> bb - 1"
    by (rule word_and_le1)
  moreover have "bb - 1 < bb"
    using nz by (simp add: word_less_nat_alt unat_minus_one unat_gt_0)
  ultimately have "unat (bb AND (bb - 1)) < unat bb"
    by (simp add: word_less_nat_alt word_le_nat_alt)
  moreover have "bb' = bb AND (bb - 1)"
    using x p by (simp add: poplsb_def)
  ultimately show "((body, bb', body sq bb' s), (body, bb, s)) \<in> measure (\<lambda>(body, bb, s). unat bb)"
    by simp
qed simp

declare whileBits.simps [simp del]


subsection \<open>Masks and attacks\<close>

text \<open>
  Modelled from the spec: the attack generators of \<^verbatim>\<open>attacks.c\<close> (\<^verbatim>\<open>pawnAttacks\<close>,
  \<^verbatim>\<open>knightAttacks\<close>, \<^verbatim>\<open>bishopAttacks\<close>, \<^verbatim>\<open>rookAttacks\<close>, \<^verbatim>\<open>kingAttacks\<close>, \<^verbatim>\<open>pawnAdvance\<close>,
  \<^verbatim>\<open>pawnAttackSpan\<close>) and the mask tables of \<^verbatim>\<open>masks.c\<close> (\<^verbatim>\<open>adjacentFilesMasks\<close>,
  \<^verbatim>\<open>forwardRanksMasks\<close>, \<^verbatim>\<open>passedPawnMasks\<close>, \<^verbatim>\<open>pawnConnectedMasks\<close>, \<^verbatim>\<open>outpostRanksMasks\<close>,
  \<^verbatim>\<open>outpostSquareMasks\<close>, \<^verbatim>\<open>kingAreaMasks\<close>), none of which is among the sources. They
  are the moves of chess and the regions the spec describes: the passed-pawn mask is
  the pawn's file and the adjacent files on the ranks ahead; the outpost ranks are the
  fourth to sixth relative ranks; the king area is the three by three block around the
  king, moved one rank towards the enemy for a king on its own back rank. The attack
  generator named \<^verbatim>\<open>pawnAttacks\<close> in C is \<open>pawnAttacksSq\<close> here, the name being taken by
  the field of \<^verbatim>\<open>EvalInfo\<close>.
\<close>

definition squareAt :: "int \<Rightarrow> int \<Rightarrow> bitboard" where
  "squareAt file rank =
     (if 0 \<le> file \<and> file < 8 \<and> 0 \<le> rank \<and> rank < 8
      then push_bit (nat (8 * rank + file)) 1 else 0)"

definition stepAttacks :: "(int \<times> int) list \<Rightarrow> int \<Rightarrow> bitboard" where
  "stepAttacks steps sq =
     foldr (\<lambda>(df, dr) bb. squareAt (fileOf sq + df) (rankOf sq + dr) OR bb) steps 0"

definition pawnAttacksSq :: "Colour \<Rightarrow> int \<Rightarrow> bitboard" where
  "pawnAttacksSq colour sq =
     (if colour = WHITE then stepAttacks [(-1, 1), (1, 1)] sq
      else stepAttacks [(-1, -1), (1, -1)] sq)"

definition knightAttacks :: "int \<Rightarrow> bitboard" where
  "knightAttacks sq =
     stepAttacks [(1, 2), (2, 1), (2, -1), (1, -2), (-1, -2), (-2, -1), (-2, 1), (-1, 2)] sq"

definition kingAttacks :: "int \<Rightarrow> bitboard" where
  "kingAttacks sq =
     stepAttacks [(0, 1), (1, 1), (1, 0), (1, -1), (0, -1), (-1, -1), (-1, 0), (-1, 1)] sq"

text \<open>
  A slider's ray: the squares from the next one in direction \<open>(df, dr)\<close> up to the
  edge of the board or the first occupied square, that square included.
\<close>

fun ray :: "nat \<Rightarrow> int \<Rightarrow> int \<Rightarrow> bitboard \<Rightarrow> int \<Rightarrow> int \<Rightarrow> bitboard" where
  "ray 0 df dr occupied file rank = 0"
| "ray (Suc n) df dr occupied file rank =
     (if file + df < 0 \<or> 7 < file + df \<or> rank + dr < 0 \<or> 7 < rank + dr then 0
      else if testBit occupied (8 * (rank + dr) + (file + df))
        then squareAt (file + df) (rank + dr)
        else squareAt (file + df) (rank + dr) OR ray n df dr occupied (file + df) (rank + dr))"

definition bishopAttacks :: "int \<Rightarrow> bitboard \<Rightarrow> bitboard" where
  "bishopAttacks sq occupied =
     ray 7 1 1 occupied (fileOf sq) (rankOf sq) OR ray 7 1 (-1) occupied (fileOf sq) (rankOf sq)
     OR ray 7 (-1) 1 occupied (fileOf sq) (rankOf sq)
     OR ray 7 (-1) (-1) occupied (fileOf sq) (rankOf sq)"

definition rookAttacks :: "int \<Rightarrow> bitboard \<Rightarrow> bitboard" where
  "rookAttacks sq occupied =
     ray 7 0 1 occupied (fileOf sq) (rankOf sq) OR ray 7 1 0 occupied (fileOf sq) (rankOf sq)
     OR ray 7 0 (-1) occupied (fileOf sq) (rankOf sq)
     OR ray 7 (-1) 0 occupied (fileOf sq) (rankOf sq)"

definition pawnAdvance :: "bitboard \<Rightarrow> bitboard \<Rightarrow> Colour \<Rightarrow> bitboard" where
  "pawnAdvance pawns occupied colour =
     NOT occupied AND (if colour = WHITE then push_bit 8 pawns else drop_bit 8 pawns)"

definition pawnLeftAttacks :: "bitboard \<Rightarrow> bitboard \<Rightarrow> Colour \<Rightarrow> bitboard" where
  "pawnLeftAttacks pawns targets colour =
     targets AND (if colour = WHITE then push_bit 7 pawns AND NOT (Files 7)
                  else drop_bit 7 pawns AND NOT (Files 0))"

definition pawnRightAttacks :: "bitboard \<Rightarrow> bitboard \<Rightarrow> Colour \<Rightarrow> bitboard" where
  "pawnRightAttacks pawns targets colour =
     targets AND (if colour = WHITE then push_bit 9 pawns AND NOT (Files 0)
                  else drop_bit 9 pawns AND NOT (Files 7))"

definition pawnAttackSpan :: "bitboard \<Rightarrow> bitboard \<Rightarrow> Colour \<Rightarrow> bitboard" where
  "pawnAttackSpan pawns targets colour =
     pawnLeftAttacks pawns targets colour OR pawnRightAttacks pawns targets colour"

definition adjacentFilesMasks :: "int \<Rightarrow> bitboard" where
  "adjacentFilesMasks file =
     (Files (max 0 (file - 1)) OR Files (min 7 (file + 1))) AND NOT (Files file)"

definition forwardRanksMasks :: "Colour \<Rightarrow> int \<Rightarrow> bitboard" where
  "forwardRanksMasks colour rank =
     (if colour = WHITE then foldr (\<lambda>r bb. Ranks r OR bb) [rank..7] 0
      else foldr (\<lambda>r bb. Ranks r OR bb) [0..rank] 0)"

definition passedPawnMasks :: "Colour \<Rightarrow> int \<Rightarrow> bitboard" where
  "passedPawnMasks colour sq =
     NOT (forwardRanksMasks (notColour colour) (rankOf sq))
     AND (adjacentFilesMasks (fileOf sq) OR Files (fileOf sq))"

definition pawnConnectedMasks :: "Colour \<Rightarrow> int \<Rightarrow> bitboard" where
  "pawnConnectedMasks colour sq =
     (if 8 \<le> sq \<and> sq < 56
      then pawnAttacksSq (notColour colour) sq
           OR pawnAttacksSq (notColour colour) (sq + (if colour = WHITE then 8 else -8))
      else 0)"

definition outpostRanksMasks :: "Colour \<Rightarrow> bitboard" where
  "outpostRanksMasks colour =
     (if colour = WHITE then Ranks 3 OR Ranks 4 OR Ranks 5 else Ranks 4 OR Ranks 3 OR Ranks 2)"

definition outpostSquareMasks :: "Colour \<Rightarrow> int \<Rightarrow> bitboard" where
  "outpostSquareMasks colour sq = passedPawnMasks colour sq AND NOT (Files (fileOf sq))"

definition kingAreaMasks :: "Colour \<Rightarrow> int \<Rightarrow> bitboard" where
  "kingAreaMasks colour sq =
     (let centre = (if relativeRankOf colour sq = 0
                    then sq + (if colour = WHITE then 8 else -8) else sq)
      in kingAttacks centre OR squareAt (fileOf centre) (rankOf centre))"

definition RANK_3 :: bitboard where
  "RANK_3 = Ranks 2"

definition RANK_6 :: bitboard where
  "RANK_6 = Ranks 5"

subsection \<open>The float of the king safety\<close>

text \<open>
  \<^verbatim>\<open>evaluateKings\<close> holds one number in a C \<^verbatim>\<open>float\<close>. It is modelled by rationals rounded
  to the precision of the type after each operation (IEEE 754, round to nearest, ties to
  even, 24 bits for \<^verbatim>\<open>float\<close> and 53 for \<^verbatim>\<open>double\<close>; the numbers at hand are far from the
  exponent limits). A conversion to \<^verbatim>\<open>int\<close> truncates.
\<close>

definition roundNearestEven :: "rat \<Rightarrow> int" where
  "roundNearestEven q =
     (let f = \<lfloor>q\<rfloor>; d = q - of_int f
      in if d < 1 / 2 then f else if 1 / 2 < d then f + 1 else if even f then f else f + 1)"

definition pow2 :: "int \<Rightarrow> rat" where
  "pow2 k = (if 0 \<le> k then 2 ^ nat k else 1 / 2 ^ nat (- k))"

definition binaryExponent :: "rat \<Rightarrow> int" where
  "binaryExponent x =
     (let (a, b) = quotient_of \<bar>x\<bar>;
          k = int (floorlog 2 (nat a)) - int (floorlog 2 (nat b))
      in if pow2 k \<le> \<bar>x\<bar> then k else k - 1)"

definition roundTo :: "nat \<Rightarrow> rat \<Rightarrow> rat" where
  "roundTo p x =
     (if x = 0 then 0
      else let u = pow2 (binaryExponent x - (int p - 1))
           in of_int (roundNearestEven (x / u)) * u)"

definition toFloat :: "rat \<Rightarrow> rat" where
  "toFloat x = roundTo 24 x"

definition toDouble :: "rat \<Rightarrow> rat" where
  "toDouble x = roundTo 53 x"

definition truncToInt :: "rat \<Rightarrow> int" where
  "truncToInt x = (if 0 \<le> x then \<lfloor>x\<rfloor> else - \<lfloor>- x\<rfloor>)"

section \<open>Evaluation terms\<close>

text \<open>
  The constants of \<^verbatim>\<open>evaluate.c\<close>, in the order of the file. A C array indexed by a
  number is a list; \<^verbatim>\<open>KSAttackWeight\<close> and \<^verbatim>\<open>Tempo\<close>, indexed by a piece kind and by a
  colour, are functions of the enum.
\<close>

definition PawnCandidatePasser :: "int list list" where
  "PawnCandidatePasser =
     [[S 0 0, S (-26) (-11), S (-12) 9, S (-12) 27, S 3 62, S 47 68, S 0 0, S 0 0], [S 0 0,
     S (-13) 14, S (-5) 21, S 4 44, S 16 85, S 33 52, S 0 0, S 0 0]]"

definition PawnIsolated :: "int" where
  "PawnIsolated = S (-8) (-10)"

definition PawnStacked :: "int" where
  "PawnStacked = S (-19) (-26)"

definition PawnBackwards :: "int list" where
  "PawnBackwards = [S 8 (-2), S (-6) (-18)]"

definition PawnConnected32 :: "int list" where
  "PawnConnected32 =
     [S 0 0, S 0 0, S 0 0, S 0 0, S (-2) (-7), S 11 0, S 4 0, S 4 18, S 15 0, S 34 (-1),
     S 22 10, S 26 18, S 10 0, S 23 4, S 10 12, S 15 23, S 16 7, S 24 14, S 31 20, S 34 21,
     S 57 26, S 53 47, S 69 55, S 82 59, S 110 (-1), S 202 10, S 227 28, S 240 51, S 0 0,
     S 0 0, S 0 0, S 0 0]"

definition KnightOutpost :: "int list" where
  "KnightOutpost = [S 7 (-25), S 31 (-3)]"

definition KnightBehindPawn :: "int" where
  "KnightBehindPawn = S 4 21"

definition KnightMobility :: "int list" where
  "KnightMobility =
     [S (-81) (-101), S (-32) (-99), S (-17) (-43), S (-3) (-17), S 8 (-6), S 15 8, S 24 12,
     S 34 12, S 45 0]"

definition BishopPair :: "int" where
  "BishopPair = S 26 70"

definition BishopRammedPawns :: "int" where
  "BishopRammedPawns = S (-10) (-16)"

definition BishopOutpost :: "int list" where
  "BishopOutpost = [S 10 (-11), S 42 0]"

definition BishopBehindPawn :: "int" where
  "BishopBehindPawn = S 3 19"

definition BishopMobility :: "int list" where
  "BishopMobility =
     [S (-64) (-146), S (-28) (-95), S (-8) (-55), S 2 (-29), S 12 (-16), S 19 (-1), S 22 8,
     S 22 14, S 22 19, S 24 20, S 23 20, S 39 9, S 40 13, S 65 (-20)]"

definition RookFile :: "int list" where
  "RookFile = [S 18 6, S 40 2]"

definition RookOnSeventh :: "int" where
  "RookOnSeventh = S 0 32"

definition RookMobility :: "int list" where
  "RookMobility =
     [S (-149) (-112), S (-52) (-116), S (-12) (-62), S (-4) (-20), S (-5) 0, S (-5) 15,
     S (-4) 25, S 1 28, S 8 31, S 11 36, S 14 42, S 18 46, S 18 51, S 25 45, S 70 17]"

definition QueenMobility :: "int list" where
  "QueenMobility =
     [S (-61) (-263), S (-211) (-387), S (-60) (-202), S (-25) (-192), S (-13) (-141),
     S (-8) (-90), S (-2) (-62), S (-3) (-35), S 0 (-24), S 0 (-1), S 3 10, S 4 23, S 6 24,
     S 8 34, S 5 39, S 5 42, S 3 46, S (-1) 45, S 0 39, S (-3) 33, S 4 12, S 18 (-7),
     S 19 (-37), S 21 (-55), S 5 (-70), S 20 (-95), S (-57) (-39), S (-27) (-54)]"

definition KingDefenders :: "int list" where
  "KingDefenders =
     [S (-21) (-3), S (-9) 0, S 0 2, S 7 4, S 16 5, S 27 2, S 32 0, S 14 0, S 12 6, S 12 6,
     S 12 6, S 12 6]"

definition KingShelter :: "int list list list" where
  "KingShelter =
     [[[S (-12) 4, S 16 (-24), S 18 (-9), S 9 2, S 4 3, S 7 2, S (-2) (-32), S (-49) 19],
     [S 16 (-6), S 23 (-18), S 0 (-5), S (-17) 2, S (-30) 13, S (-69) 69, S 93 84,
     S (-29) 3], [S 32 (-1), S 16 (-9), S (-26) 6, S (-11) (-9), S (-22) (-4), S (-7) (-1),
     S 0 66, S (-15) 0], [S 3 13, S 20 (-8), S 3 (-11), S 14 (-23), S 23 (-35), S (-51) 1,
     S (-137) 51, S 3 (-5)], [S (-13) 8, S 1 (-2), S (-26) 0, S (-18) 2, S (-20) (-8),
     S (-38) 0, S 34 (-15), S (-8) (-1)], [S 44 (-14), S 25 (-18), S (-21) 0, S (-12) (-19),
     S 4 (-25), S 17 (-23), S 42 (-29), S (-25) 1], [S 23 (-10), S 1 (-17), S (-23) (-4),
     S (-19) (-11), S (-29) (-9), S (-34) 31, S 0 44, S (-12) 3], [S (-10) (-8), S 7 (-18),
     S 8 (-2), S (-2) 7, S (-11) 13, S (-9) 37, S (-190) 87, S (-19) 15]], [[S 0 0,
     S (-10) (-22), S 0 (-16), S (-42) 16, S (-18) 0, S 3 43, S (-167) (-9), S (-45) 11],
     [S 0 0, S 25 (-20), S 6 (-8), S (-19) (-3), S 0 (-15), S 28 71, S (-184) (-4),
     S (-42) 6], [S 0 0, S 35 (-11), S (-1) (-6), S 8 (-18), S 13 (-8), S (-91) 48,
     S (-85) (-75), S (-22) (-3)], [S 0 0, S (-1) 9, S (-1) 1, S (-15) 0, S (-26) 0,
     S (-101) 29, S 7 (-42), S (-23) (-4)], [S 0 0, S 11 3, S 11 (-5), S 13 (-11),
     S 13 (-24), S (-54) 15, S (-105) (-63), S (-2) (-6)], [S 0 0, S 9 (-6), S (-20) 0,
     S (-27) (-8), S 18 (-26), S (-39) 2, S 56 39, S (-21) (-3)], [S 0 0, S 24 (-13),
     S 11 (-12), S (-10) (-9), S (-29) 5, S (-8) 14, S (-56) (-51), S (-34) 14], [S 0 0,
     S 14 (-36), S 19 (-27), S (-18) (-5), S (-17) 15, S (-1) 15, S (-229) (-57),
     S (-23) 6]]]"

definition KingStorm :: "int list list list" where
  "KingStorm =
     [[[S 1 23, S 114 (-11), S (-26) 24, S (-22) 10, S (-13) 2, S (-8) (-2), S (-18) 6,
     S (-22) (-2)], [S 0 45, S 57 11, S (-18) 23, S (-6) 11, S (-3) 4, S 5 (-4), S 0 0,
     S (-12) 0], [S 11 34, S 20 20, S (-24) 20, S (-13) 9, S 3 2, S 7 0, S 8 (-7),
     S 2 (-1)], [S 0 23, S 20 18, S (-13) 8, S (-15) 3, S (-13) 1, S 7 (-10), S 0 (-7),
     S (-14) 2]], [[S 0 0, S (-11) (-13), S (-16) (-1), S 20 (-16), S 11 (-7), S 0 (-17),
     S (-7) 0, S 16 27], [S 0 0, S (-13) (-28), S (-7) (-10), S 32 (-13), S (-1) 0,
     S 10 (-22), S (-11) (-8), S (-15) 2], [S 0 0, S (-23) (-42), S (-30) (-8), S 9 (-10),
     S 2 (-1), S (-9) (-14), S (-13) (-13), S (-10) 5], [S 0 0, S (-1) (-14), S (-17) (-18),
     S (-11) (-3), S (-4) (-5), S 6 (-29), S 67 (-6), S 12 18]]]"

fun KSAttackWeight :: "Piece \<Rightarrow> int" where
  "KSAttackWeight PAWN = 0"
| "KSAttackWeight KNIGHT = 16"
| "KSAttackWeight BISHOP = 6"
| "KSAttackWeight ROOK = 10"
| "KSAttackWeight QUEEN = 8"
| "KSAttackWeight KING = 0"

definition KSAttackValue :: "int" where
  "KSAttackValue = 44"

definition KSWeakSquares :: "int" where
  "KSWeakSquares = 38"

definition KSFriendlyPawns :: "int" where
  "KSFriendlyPawns = -22"

definition KSNoEnemyQueens :: "int" where
  "KSNoEnemyQueens = -276"

definition KSSafeQueenCheck :: "int" where
  "KSSafeQueenCheck = 95"

definition KSSafeRookCheck :: "int" where
  "KSSafeRookCheck = 94"

definition KSSafeBishopCheck :: "int" where
  "KSSafeBishopCheck = 51"

definition KSSafeKnightCheck :: "int" where
  "KSSafeKnightCheck = 123"

definition KSAdjustment :: "int" where
  "KSAdjustment = -18"

definition PassedPawn :: "int list list list" where
  "PassedPawn =
     [[[S 0 0, S (-38) 0, S (-53) 22, S (-83) 26, S (-6) 16, S 66 0, S 152 59, S 0 0],
     [S 0 0, S (-26) 1, S (-46) 20, S (-71) 25, S (-13) 27, S 84 27, S 183 94, S 0 0]],
     [[S 0 0, S (-25) 10, S (-47) 17, S (-74) 32, S (-2) 34, S 88 41, S 258 123, S 0 0],
     [S 0 0, S (-28) 6, S (-40) 13, S (-65) 35, S (-3) 58, S 76 140, S 156 302, S 0 0]]]"

definition PassedFriendlyDistance :: "int list" where
  "PassedFriendlyDistance =
     [S 0 0, S 0 0, S 3 (-3), S 7 (-11), S 6 (-16), S (-6) (-16), S (-13) (-11), S 0 0]"

definition PassedEnemyDistance :: "int list" where
  "PassedEnemyDistance =
     [S 0 0, S 3 0, S 4 1, S 8 10, S 1 25, S 8 34, S 24 37, S 0 0]"

definition PassedSafePromotionPath :: "int" where
  "PassedSafePromotionPath = S (-27) 36"

definition ThreatWeakPawn :: "int" where
  "ThreatWeakPawn = S (-14) (-28)"

definition ThreatMinorAttackedByPawn :: "int" where
  "ThreatMinorAttackedByPawn = S (-56) (-47)"

definition ThreatMinorAttackedByMinor :: "int" where
  "ThreatMinorAttackedByMinor = S (-28) (-35)"

definition ThreatMinorAttackedByMajor :: "int" where
  "ThreatMinorAttackedByMajor = S (-25) (-44)"

definition ThreatRookAttackedByLesser :: "int" where
  "ThreatRookAttackedByLesser = S (-58) (-10)"

definition ThreatQueenAttackedByOne :: "int" where
  "ThreatQueenAttackedByOne = S (-48) (-15)"

definition ThreatOverloadedPieces :: "int" where
  "ThreatOverloadedPieces = S (-8) (-16)"

definition ThreatByPawnPush :: "int" where
  "ThreatByPawnPush = S 16 20"

fun Tempo :: "Colour \<Rightarrow> int" where
  "Tempo WHITE = S 25 12"
| "Tempo BLACK = S (-25) (-12)"


section \<open>Piece-square tables\<close>

text \<open>
  \<^verbatim>\<open>PieceValues\<close> from \<^verbatim>\<open>evaluate.c\<close>, indexed by the piece kind and by the phase
  (\<^verbatim>\<open>MG\<close> or \<^verbatim>\<open>EG\<close>), and the quarter-board tables of \<^verbatim>\<open>psqt.c\<close>.
\<close>

datatype Phase = MG | EG

fun PieceValues :: "Piece \<Rightarrow> Phase \<Rightarrow> int" where
  "PieceValues PAWN MG = 110"
| "PieceValues PAWN EG = 129"
| "PieceValues KNIGHT MG = 460"
| "PieceValues KNIGHT EG = 412"
| "PieceValues BISHOP MG = 481"
| "PieceValues BISHOP EG = 430"
| "PieceValues ROOK MG = 677"
| "PieceValues ROOK EG = 714"
| "PieceValues QUEEN MG = 1263"
| "PieceValues QUEEN EG = 1375"
| "PieceValues KING MG = 0"
| "PieceValues KING EG = 0"

definition PawnPSQT32 :: "int list" where
  "PawnPSQT32 =
     [S 0 0, S 0 0, S 0 0, S 0 0, S (-15) 11, S 9 2, S (-14) 5, S (-10) (-3), S (-17) 4,
     S (-12) 5, S (-7) (-10), S (-5) (-18), S (-17) 19, S (-10) 14, S 18 (-17), S 15 (-35),
     S (-3) 24, S 4 13, S 6 (-2), S 21 (-29), S (-8) 41, S (-9) 37, S (-1) 17, S 29 (-11),
     S (-13) (-15), S (-78) 17, S 25 (-25), S 49 (-27), S 0 0, S 0 0, S 0 0, S 0 0]"

definition KnightPSQT32 :: "int list" where
  "KnightPSQT32 =
     [S (-72) (-10), S (-16) (-48), S (-25) (-25), S (-10) (-28), S (-13) (-11), S 1 (-24),
     S (-12) (-33), S 0 (-25), S (-6) (-26), S 14 (-30), S 5 (-29), S 13 (-7), S 13 7,
     S 8 11, S 20 14, S 18 24, S 24 22, S 21 10, S 33 26, S 20 43, S (-11) 20, S 0 11,
     S 36 24, S 12 38, S 1 9, S (-24) 12, S 11 (-10), S 70 6, S (-144) (-2), S (-62) 24,
     S (-107) 43, S (-19) 23]"

definition BishopPSQT32 :: "int list" where
  "BishopPSQT32 =
     [S 13 (-15), S 15 (-22), S (-20) (-6), S 5 (-13), S 27 (-27), S 19 (-28), S 18 (-14),
     S 3 (-6), S 11 (-6), S 24 (-12), S 11 (-3), S 14 0, S 7 (-10), S 15 0, S 12 8, S 11 14,
     S (-19) 10, S 14 5, S (-1) 14, S 2 23, S 1 2, S (-11) 23, S 10 15, S 15 15, S (-43) 17,
     S (-50) 13, S (-2) 13, S (-30) 11, S (-33) 14, S (-36) 20, S (-94) 24, S (-118) 31]"

definition RookPSQT32 :: "int list" where
  "RookPSQT32 =
     [S (-8) (-36), S (-21) (-20), S (-6) (-27), S 0 (-36), S (-71) (-17), S (-25) (-34),
     S (-20) (-35), S (-11) (-39), S (-27) (-21), S (-9) (-16), S (-30) (-18),
     S (-13) (-25), S (-14) (-4), S (-11) 13, S (-21) 7, S (-9) 2, S (-5) 23, S 17 23,
     S 12 14, S 26 8, S (-17) 37, S 12 29, S (-14) 37, S 16 19, S (-5) 24, S (-24) 36,
     S (-14) 27, S 12 25, S 40 26, S 36 32, S 23 39, S (-4) 43]"

definition QueenPSQT32 :: "int list" where
  "QueenPSQT32 =
     [S 13 (-82), S (-26) (-27), S (-9) (-60), S 2 (-48), S 6 (-28), S 16 (-65), S 17 (-86),
     S 1 (-19), S (-2) (-16), S 14 (-21), S (-3) 4, S (-7) (-3), S 0 (-8), S (-1) 27,
     S (-17) 35, S (-32) 80, S (-4) (-4), S (-20) 56, S (-34) 43, S (-46) 92, S (-35) 31,
     S (-38) 45, S (-45) 50, S (-21) 32, S (-15) 41, S (-69) 82, S (-33) 41, S (-45) 66,
     S (-1) 41, S (-3) 44, S (-12) 35, S 8 41]"

definition KingPSQT32 :: "int list" where
  "KingPSQT32 =
     [S 50 (-110), S 50 (-75), S 4 (-44), S (-4) (-62), S 32 (-49), S 1 (-43),
     S (-27) (-17), S (-32) (-18), S 11 (-49), S 13 (-41), S 8 (-15), S (-9) (-2),
     S (-6) (-38), S 60 (-35), S 23 5, S (-33) 18, S (-3) (-5), S 88 (-16), S 35 24,
     S (-13) 31, S 61 (-2), S 120 (-1), S 99 30, S 47 25, S 17 (-3), S 51 12, S 28 29,
     S 2 15, S 15 (-94), S 79 (-50), S (-13) (-1), S (-17) 18]"

definition relativeSquare32 :: "int \<Rightarrow> Colour \<Rightarrow> int" where
  "relativeSquare32 s c = 4 * relativeRankOf c s + [0, 1, 2, 3, 3, 2, 1, 0] ! nat (fileOf s)"

text \<open>
  \<^verbatim>\<open>initializePSQT\<close> fills the global \<^verbatim>\<open>PSQT\<close>, one row per coloured piece. \<open>PSQT\<close> is the
  table it leaves, as a function of the colour, the kind and the square.
\<close>

fun PSQT32 :: "Piece \<Rightarrow> int list" where
  "PSQT32 PAWN = PawnPSQT32"
| "PSQT32 KNIGHT = KnightPSQT32"
| "PSQT32 BISHOP = BishopPSQT32"
| "PSQT32 ROOK = RookPSQT32"
| "PSQT32 QUEEN = QueenPSQT32"
| "PSQT32 KING = KingPSQT32"

definition PSQT :: "Colour \<Rightarrow> Piece \<Rightarrow> int \<Rightarrow> int" where
  "PSQT colour kind s =
     (let w32 = relativeSquare32 s WHITE;
          b32 = relativeSquare32 s BLACK
      in if colour = WHITE
         then MakeScore (PieceValues kind MG) (PieceValues kind EG) + PSQT32 kind ! nat w32
         else - MakeScore (PieceValues kind MG) (PieceValues kind EG) - PSQT32 kind ! nat b32)"

section \<open>The evaluator\<close>

subsection \<open>The pawn-king table and the scratchpad\<close>

text \<open>
  Modelled from the spec: the pawn-king table of \<^verbatim>\<open>transposition.c\<close> (not among the
  sources), a table keyed by the pawn-king hash whose entries hold the hash, the passed
  pawns and the difference of the two sides' pawn-king evaluations.
  \<^verbatim>\<open>getPawnKingEntry\<close> returns the entry stored under a hash, if any (\<^verbatim>\<open>NULL\<close> is
  \<open>None\<close>); \<^verbatim>\<open>storePawnKingEntry\<close> writes one.
\<close>

record PawnKingEntry =
  entry_pkhash :: "64 word"
  entry_passed :: bitboard
  entry_eval :: int

type_synonym PawnKingTable = "64 word \<Rightarrow> PawnKingEntry option"

definition getPawnKingEntry :: "PawnKingTable \<Rightarrow> 64 word \<Rightarrow> PawnKingEntry option" where
  "getPawnKingEntry pktable hash =
     (case pktable hash of
        None \<Rightarrow> None
      | Some pke \<Rightarrow> if entry_pkhash pke = hash then Some pke else None)"

definition storePawnKingEntry ::
  "PawnKingTable \<Rightarrow> 64 word \<Rightarrow> bitboard \<Rightarrow> int \<Rightarrow> PawnKingTable" where
  "storePawnKingEntry pktable hash passedBB ev =
     pktable(hash \<mapsto> \<lparr>entry_pkhash = hash, entry_passed = passedBB, entry_eval = ev\<rparr>)"

text \<open>
  \<^verbatim>\<open>EvalInfo\<close>, with the fields \<^verbatim>\<open>evaluate.c\<close> reads and writes. An array over the two
  colours is a function of the colour.
\<close>

record EvalInfo =
  pawnAttacks :: "Colour \<Rightarrow> bitboard"
  rammedPawns :: "Colour \<Rightarrow> bitboard"
  blockedPawns :: "Colour \<Rightarrow> bitboard"
  kingAreas :: "Colour \<Rightarrow> bitboard"
  mobilityAreas :: "Colour \<Rightarrow> bitboard"
  attacked :: "Colour \<Rightarrow> bitboard"
  attackedBy2 :: "Colour \<Rightarrow> bitboard"
  attackedBy :: "Colour \<Rightarrow> Piece \<Rightarrow> bitboard"
  occupiedMinusBishops :: "Colour \<Rightarrow> bitboard"
  occupiedMinusRooks :: "Colour \<Rightarrow> bitboard"
  passedPawns :: bitboard
  kingSquare :: "Colour \<Rightarrow> int"
  kingAttacksCount :: "Colour \<Rightarrow> int"
  kingAttackersCount :: "Colour \<Rightarrow> int"
  kingAttackersWeight :: "Colour \<Rightarrow> int"
  pkeval :: "Colour \<Rightarrow> int"
  pkentry :: "PawnKingEntry option"

text \<open>
  \<^verbatim>\<open>initializeEvalInfo\<close>. The C function leaves \<^verbatim>\<open>attackedBy2\<close> and the entries of
  \<^verbatim>\<open>attackedBy\<close> other than the king's unassigned; every one of them is assigned by the
  piece evaluators before it is read, and they start as the empty bitboard here.
\<close>

definition initializeEvalInfo :: "Board \<Rightarrow> PawnKingTable option \<Rightarrow> EvalInfo" where
  "initializeEvalInfo board pktable =
     (let white = colours board WHITE;
          black = colours board BLACK;
          pawns = pieces board PAWN;
          bishops = pieces board BISHOP;
          rooks = pieces board ROOK;
          queens = pieces board QUEEN;
          kings = pieces board KING;
          whitePawns = white AND pawns;
          blackPawns = black AND pawns;
          wKingSq = getlsb (white AND kings);
          bKingSq = getlsb (black AND kings);
          pawnAttacksW = pawnAttackSpan whitePawns (NOT 0) WHITE;
          pawnAttacksB = pawnAttackSpan blackPawns (NOT 0) BLACK;
          blockedPawnsW = pawnAdvance (white OR black) (NOT whitePawns) BLACK;
          blockedPawnsB = pawnAdvance (white OR black) (NOT blackPawns) WHITE;
          entry = (case pktable of None \<Rightarrow> None
                   | Some table \<Rightarrow> getPawnKingEntry table (pkhash board))
      in \<lparr>pawnAttacks = (\<lambda>c. if c = WHITE then pawnAttacksW else pawnAttacksB),
          rammedPawns = (\<lambda>c. if c = WHITE then pawnAdvance blackPawns (NOT whitePawns) BLACK
                              else pawnAdvance whitePawns (NOT blackPawns) WHITE),
          blockedPawns = (\<lambda>c. if c = WHITE then blockedPawnsW else blockedPawnsB),
          kingAreas = (\<lambda>c. if c = WHITE then kingAreaMasks WHITE wKingSq
                            else kingAreaMasks BLACK bKingSq),
          mobilityAreas = (\<lambda>c. if c = WHITE
                                then NOT (pawnAttacksB OR (white AND kings) OR blockedPawnsW)
                                else NOT (pawnAttacksW OR (black AND kings) OR blockedPawnsB)),
          attacked = (\<lambda>c. if c = WHITE then kingAttacks wKingSq else kingAttacks bKingSq),
          attackedBy2 = (\<lambda>c. 0),
          attackedBy = (\<lambda>c p. if p = KING
                                then (if c = WHITE then kingAttacks wKingSq else kingAttacks bKingSq)
                                else 0),
          occupiedMinusBishops = (\<lambda>c. if c = WHITE
                                       then (white OR black) XOR (white AND (bishops OR queens))
                                       else (white OR black) XOR (black AND (bishops OR queens))),
          occupiedMinusRooks = (\<lambda>c. if c = WHITE
                                     then (white OR black) XOR (white AND (rooks OR queens))
                                     else (white OR black) XOR (black AND (rooks OR queens))),
          passedPawns = (case entry of None \<Rightarrow> 0 | Some pke \<Rightarrow> entry_passed pke),
          kingSquare = (\<lambda>c. if c = WHITE then wKingSq else bKingSq),
          kingAttacksCount = (\<lambda>c. 0),
          kingAttackersCount = (\<lambda>c. 0),
          kingAttackersWeight = (\<lambda>c. 0),
          pkeval = (\<lambda>c. if c = WHITE then (case entry of None \<Rightarrow> 0 | Some pke \<Rightarrow> entry_eval pke)
                         else 0),
          pkentry = entry\<rparr>)"

text \<open>
  Two groups of assignments that every piece loop repeats: the attack maps
  (\<^verbatim>\<open>attackedBy2\<close>, then \<^verbatim>\<open>attacked\<close>, then \<^verbatim>\<open>attackedBy\<close> of the kind), and the king
  safety counters, touched when the piece attacks the enemy king area.
\<close>

definition storeAttacks :: "EvalInfo \<Rightarrow> Colour \<Rightarrow> Piece \<Rightarrow> bitboard \<Rightarrow> EvalInfo" where
  "storeAttacks ei US kind attacks =
     (let ei = ei\<lparr>attackedBy2 := (attackedBy2 ei)(US := attackedBy2 ei US OR (attacks AND attacked ei US))\<rparr>;
          ei = ei\<lparr>attacked := (attacked ei)(US := attacked ei US OR attacks)\<rparr>
      in ei\<lparr>attackedBy := (attackedBy ei)(US := (attackedBy ei US)(kind := attackedBy ei US kind OR attacks))\<rparr>)"

definition updateKingSafety :: "EvalInfo \<Rightarrow> Colour \<Rightarrow> Piece \<Rightarrow> bitboard \<Rightarrow> EvalInfo" where
  "updateKingSafety ei US kind attacks =
     (if attacks \<noteq> 0
      then ei\<lparr>kingAttacksCount := (kingAttacksCount ei)(US := kingAttacksCount ei US + popcount attacks),
              kingAttackersCount := (kingAttackersCount ei)(US := kingAttackersCount ei US + 1),
              kingAttackersWeight := (kingAttackersWeight ei)(US := kingAttackersWeight ei US + KSAttackWeight kind)\<rparr>
      else ei)"

subsection \<open>Pawns\<close>

text \<open>The body of the loop of \<^verbatim>\<open>evaluatePawns\<close>, on the pawn just popped.\<close>

definition evaluatePawns_step ::
  "Board \<Rightarrow> Colour \<Rightarrow> int \<Rightarrow> bitboard \<Rightarrow> EvalInfo \<times> int \<Rightarrow> EvalInfo \<times> int" where
  "evaluatePawns_step board US sq tempPawns =
     (\<lambda>(ei, pkevalUS). let THEM = notColour US;
          Forward = (if US = WHITE then 8 else -8);
          pawns = pieces board PAWN;
          myPawns = pawns AND colours board US;
          enemyPawns = pawns AND colours board THEM;
          stoppers = enemyPawns AND passedPawnMasks US sq;
          threats = enemyPawns AND pawnAttacksSq US sq;
          support = myPawns AND pawnAttacksSq THEM sq;
          pushThreats = enemyPawns AND pawnAttacksSq US (sq + Forward);
          pushSupport = myPawns AND pawnAttacksSq THEM (sq + Forward);
          leftovers = stoppers XOR threats XOR pushThreats;
          (ei, pkevalUS) =
            (if stoppers = 0 then (ei\<lparr>passedPawns := setBit (passedPawns ei) sq\<rparr>, pkevalUS)
             else if leftovers = 0 \<and> popcount pushSupport \<ge> popcount pushThreats
               then (ei, pkevalUS + PawnCandidatePasser
                                      ! of_bool (popcount support \<ge> popcount threats)
                                      ! nat (relativeRankOf US sq))
               else (ei, pkevalUS));
          pkevalUS = (if adjacentFilesMasks (fileOf sq) AND myPawns = 0
                      then pkevalUS + PawnIsolated else pkevalUS);
          pkevalUS = (if Files (fileOf sq) AND tempPawns \<noteq> 0
                      then pkevalUS + PawnStacked else pkevalUS);
          pkevalUS = (if passedPawnMasks THEM sq AND myPawns = 0
                         \<and> testBit (pawnAttacks ei THEM) (sq + Forward)
                      then pkevalUS + PawnBackwards ! of_bool (Files (fileOf sq) AND enemyPawns = 0)
                      else if pawnConnectedMasks US sq AND myPawns \<noteq> 0
                        then pkevalUS + PawnConnected32 ! nat (relativeSquare32 sq US)
                        else pkevalUS)
      in (ei, pkevalUS))"

definition evaluatePawns :: "EvalInfo \<Rightarrow> Board \<Rightarrow> Colour \<Rightarrow> int \<times> EvalInfo" where
  "evaluatePawns ei board colour =
     (let US = colour;
          THEM = notColour colour;
          eval = 0;
          ei = ei\<lparr>attackedBy2 := (attackedBy2 ei)(US := pawnAttacks ei US AND attacked ei US)\<rparr>;
          ei = ei\<lparr>attacked := (attacked ei)(US := attacked ei US OR pawnAttacks ei US)\<rparr>;
          ei = ei\<lparr>attackedBy := (attackedBy ei)(US := (attackedBy ei US)(PAWN := pawnAttacks ei US))\<rparr>;
          attacks = pawnAttacks ei US AND kingAreas ei THEM;
          ei = ei\<lparr>kingAttacksCount := (kingAttacksCount ei)(US := kingAttacksCount ei US + popcount attacks)\<rparr>
      in if pkentry ei \<noteq> None then (eval, ei)
         else let pawns = pieces board PAWN;
                  myPawns = pawns AND colours board US;
                  (ei, pkevalUS) = whileBits (evaluatePawns_step board US) myPawns (ei, 0)
              in (eval, ei\<lparr>pkeval := (pkeval ei)(US := pkevalUS)\<rparr>))"

subsection \<open>Knights, bishops, rooks and queens\<close>

definition evaluateKnights_step ::
  "Board \<Rightarrow> Colour \<Rightarrow> int \<Rightarrow> bitboard \<Rightarrow> EvalInfo \<times> int \<Rightarrow> EvalInfo \<times> int" where
  "evaluateKnights_step board US sq tempKnights =
     (\<lambda>(ei, eval). let THEM = notColour US;
          enemyPawns = pieces board PAWN AND colours board THEM;
          attacks = knightAttacks sq;
          ei = storeAttacks ei US KNIGHT attacks;
          eval = (if testBit (outpostRanksMasks US) sq \<and> outpostSquareMasks US sq AND enemyPawns = 0
                  then eval + KnightOutpost ! of_bool (testBit (pawnAttacks ei US) sq)
                  else eval);
          eval = (if testBit (pawnAdvance (pieces board PAWN) 0 THEM) sq
                  then eval + KnightBehindPawn else eval);
          count = popcount (mobilityAreas ei US AND attacks);
          eval = eval + KnightMobility ! nat count;
          attacks = attacks AND kingAreas ei THEM;
          ei = updateKingSafety ei US KNIGHT attacks
      in (ei, eval))"

definition evaluateKnights :: "EvalInfo \<Rightarrow> Board \<Rightarrow> Colour \<Rightarrow> int \<times> EvalInfo" where
  "evaluateKnights ei board colour =
     (let US = colour;
          tempKnights = pieces board KNIGHT AND colours board US;
          ei = ei\<lparr>attackedBy := (attackedBy ei)(US := (attackedBy ei US)(KNIGHT := 0))\<rparr>;
          (ei, eval) = whileBits (evaluateKnights_step board US) tempKnights (ei, 0)
      in (eval, ei))"

definition evaluateBishops_step ::
  "Board \<Rightarrow> Colour \<Rightarrow> int \<Rightarrow> bitboard \<Rightarrow> EvalInfo \<times> int \<Rightarrow> EvalInfo \<times> int" where
  "evaluateBishops_step board US sq tempBishops =
     (\<lambda>(ei, eval). let THEM = notColour US;
          myPawns = pieces board PAWN AND colours board US;
          enemyPawns = pieces board PAWN AND colours board THEM;
          attacks = bishopAttacks sq (occupiedMinusBishops ei US);
          ei = storeAttacks ei US BISHOP attacks;
          count = popcount (rammedPawns ei US
                            AND (if testBit WHITE_SQUARES sq then WHITE_SQUARES else BLACK_SQUARES));
          eval = eval + count * BishopRammedPawns;
          eval = (if testBit (outpostRanksMasks US) sq \<and> outpostSquareMasks US sq AND enemyPawns = 0
                  then eval + BishopOutpost ! of_bool (testBit (pawnAttacks ei US) sq)
                  else eval);
          eval = (if testBit (pawnAdvance (myPawns OR enemyPawns) 0 THEM) sq
                  then eval + BishopBehindPawn else eval);
          count = popcount (mobilityAreas ei US AND attacks);
          eval = eval + BishopMobility ! nat count;
          attacks = attacks AND kingAreas ei THEM;
          ei = updateKingSafety ei US BISHOP attacks
      in (ei, eval))"

definition evaluateBishops :: "EvalInfo \<Rightarrow> Board \<Rightarrow> Colour \<Rightarrow> int \<times> EvalInfo" where
  "evaluateBishops ei board colour =
     (let US = colour;
          tempBishops = pieces board BISHOP AND colours board US;
          ei = ei\<lparr>attackedBy := (attackedBy ei)(US := (attackedBy ei US)(BISHOP := 0))\<rparr>;
          eval = (if tempBishops AND WHITE_SQUARES \<noteq> 0 \<and> tempBishops AND BLACK_SQUARES \<noteq> 0
                  then 0 + BishopPair else 0);
          (ei, eval) = whileBits (evaluateBishops_step board US) tempBishops (ei, eval)
      in (eval, ei))"

definition evaluateRooks_step ::
  "Board \<Rightarrow> Colour \<Rightarrow> int \<Rightarrow> bitboard \<Rightarrow> EvalInfo \<times> int \<Rightarrow> EvalInfo \<times> int" where
  "evaluateRooks_step board US sq tempRooks =
     (\<lambda>(ei, eval). let THEM = notColour US;
          myPawns = pieces board PAWN AND colours board US;
          enemyPawns = pieces board PAWN AND colours board THEM;
          attacks = rookAttacks sq (occupiedMinusRooks ei US);
          ei = storeAttacks ei US ROOK attacks;
          eval = (if myPawns AND Files (fileOf sq) = 0
                  then eval + RookFile ! of_bool (enemyPawns AND Files (fileOf sq) = 0)
                  else eval);
          eval = (if relativeRankOf US sq = 6 \<and> relativeRankOf US (kingSquare ei THEM) \<ge> 6
                  then eval + RookOnSeventh else eval);
          count = popcount (mobilityAreas ei US AND attacks);
          eval = eval + RookMobility ! nat count;
          attacks = attacks AND kingAreas ei THEM;
          ei = updateKingSafety ei US ROOK attacks
      in (ei, eval))"

definition evaluateRooks :: "EvalInfo \<Rightarrow> Board \<Rightarrow> Colour \<Rightarrow> int \<times> EvalInfo" where
  "evaluateRooks ei board colour =
     (let US = colour;
          tempRooks = pieces board ROOK AND colours board US;
          ei = ei\<lparr>attackedBy := (attackedBy ei)(US := (attackedBy ei US)(ROOK := 0))\<rparr>;
          (ei, eval) = whileBits (evaluateRooks_step board US) tempRooks (ei, 0)
      in (eval, ei))"

definition evaluateQueens_step ::
  "Board \<Rightarrow> Colour \<Rightarrow> int \<Rightarrow> bitboard \<Rightarrow> EvalInfo \<times> int \<Rightarrow> EvalInfo \<times> int" where
  "evaluateQueens_step board US sq tempQueens =
     (\<lambda>(ei, eval). let THEM = notColour US;
          attacks = rookAttacks sq (occupiedMinusRooks ei US)
                    OR bishopAttacks sq (occupiedMinusBishops ei US);
          ei = storeAttacks ei US QUEEN attacks;
          count = popcount (mobilityAreas ei US AND attacks);
          eval = eval + QueenMobility ! nat count;
          attacks = attacks AND kingAreas ei THEM;
          ei = updateKingSafety ei US QUEEN attacks
      in (ei, eval))"

definition evaluateQueens :: "EvalInfo \<Rightarrow> Board \<Rightarrow> Colour \<Rightarrow> int \<times> EvalInfo" where
  "evaluateQueens ei board colour =
     (let US = colour;
          tempQueens = pieces board QUEEN AND colours board US;
          ei = ei\<lparr>attackedBy := (attackedBy ei)(US := (attackedBy ei US)(QUEEN := 0))\<rparr>;
          (ei, eval) = whileBits (evaluateQueens_step board US) tempQueens (ei, 0)
      in (eval, ei))"

subsection \<open>Kings\<close>

text \<open>
  The danger count of the king safety block of \<^verbatim>\<open>evaluateKings\<close>: the statements between
  the test on the attackers and the test \<^verbatim>\<open>count > 0\<close>. The sum that holds the \<^verbatim>\<open>float\<close> is
  added from the left, each partial sum rounded to a \<^verbatim>\<open>float\<close>; the king area of a king
  on the board is not empty, so the division is by a positive count.
\<close>

definition kingSafetyCount :: "EvalInfo \<Rightarrow> Board \<Rightarrow> Colour \<Rightarrow> int" where
  "kingSafetyCount ei board US =
     (let THEM = notColour US;
          myPawns = pieces board PAWN AND colours board US;
          enemyQueens = pieces board QUEEN AND colours board THEM;
          kingSq = kingSquare ei US;
          weak = attacked ei THEM
                 AND NOT (attackedBy2 ei US)
                 AND (NOT (attacked ei US) OR attackedBy ei US QUEEN OR attackedBy ei US KING);
          scaledAttackCounts =
            toFloat (toDouble (toDouble (9 * of_int (kingAttacksCount ei THEM))
                               / of_int (popcount (kingAreas ei US))));
          safe = NOT (colours board THEM)
                 AND (NOT (attacked ei US) OR (weak AND attackedBy2 ei THEM));
          occupied = colours board WHITE OR colours board BLACK;
          knightThreats = knightAttacks kingSq;
          bishopThreats = bishopAttacks kingSq occupied;
          rookThreats = rookAttacks kingSq occupied;
          queenThreats = bishopThreats OR rookThreats;
          knightChecks = knightThreats AND safe AND attackedBy ei THEM KNIGHT;
          bishopChecks = bishopThreats AND safe AND attackedBy ei THEM BISHOP;
          rookChecks = rookThreats AND safe AND attackedBy ei THEM ROOK;
          queenChecks = queenThreats AND safe AND attackedBy ei THEM QUEEN;
          count = kingAttackersCount ei THEM * kingAttackersWeight ei THEM;
          fsum = toFloat (of_int KSAttackValue * scaledAttackCounts);
          fsum = toFloat (fsum + of_int (KSWeakSquares * popcount (weak AND kingAreas ei US)));
          fsum = toFloat (fsum + of_int (KSFriendlyPawns
                                         * popcount (myPawns AND kingAreas ei US AND NOT weak)));
          fsum = toFloat (fsum + of_int (KSNoEnemyQueens * of_bool (enemyQueens = 0)));
          fsum = toFloat (fsum + of_int (KSSafeQueenCheck * popcount queenChecks));
          fsum = toFloat (fsum + of_int (KSSafeRookCheck * popcount rookChecks));
          fsum = toFloat (fsum + of_int (KSSafeBishopCheck * popcount bishopChecks));
          fsum = toFloat (fsum + of_int (KSSafeKnightCheck * popcount knightChecks));
          fsum = toFloat (fsum + of_int KSAdjustment)
      in truncToInt (toFloat (of_int count + fsum)))"

text \<open>The body of the shelter and storm loop of \<^verbatim>\<open>evaluateKings\<close>, on one file.\<close>

definition evaluateKings_step :: "Board \<Rightarrow> Colour \<Rightarrow> int \<Rightarrow> EvalInfo \<Rightarrow> EvalInfo" where
  "evaluateKings_step board US file ei =
     (let THEM = notColour US;
          myPawns = pieces board PAWN AND colours board US;
          enemyPawns = pieces board PAWN AND colours board THEM;
          kingSq = kingSquare ei US;
          kingFile = fileOf kingSq;
          kingRank = rankOf kingSq;
          ours = myPawns AND Files file AND forwardRanksMasks US kingRank;
          ourDist = (if ours = 0 then 7 else \<bar>kingRank - rankOf (backmost US ours)\<bar>);
          theirs = enemyPawns AND Files file AND forwardRanksMasks US kingRank;
          theirDist = (if theirs = 0 then 7 else \<bar>kingRank - rankOf (backmost US theirs)\<bar>);
          ei = ei\<lparr>pkeval := (pkeval ei)(US := pkeval ei US
                  + KingShelter ! of_bool (file = kingFile) ! nat file ! nat ourDist)\<rparr>;
          blocked = (ourDist \<noteq> 7 \<and> ourDist = theirDist - 1)
      in ei\<lparr>pkeval := (pkeval ei)(US := pkeval ei US
                  + KingStorm ! of_bool blocked ! nat (mirrorFile file) ! nat theirDist)\<rparr>)"

definition evaluateKings :: "EvalInfo \<Rightarrow> Board \<Rightarrow> Colour \<Rightarrow> int \<times> EvalInfo" where
  "evaluateKings ei board colour =
     (let US = colour;
          THEM = notColour colour;
          enemyQueens = pieces board QUEEN AND colours board THEM;
          myDefenders = (pieces board PAWN AND colours board US)
                        OR (pieces board KNIGHT AND colours board US)
                        OR (pieces board BISHOP AND colours board US);
          kingSq = kingSquare ei US;
          kingFile = fileOf kingSq;
          count = popcount (myDefenders AND kingAreas ei US);
          eval = 0 + KingDefenders ! nat count;
          eval = (if kingAttackersCount ei THEM > 1 - popcount enemyQueens
                  then let count = kingSafetyCount ei board US
                       in if count > 0
                          then eval - MakeScore (cdiv (count * count) 720) (cdiv count 20)
                          else eval
                  else eval)
      in if pkentry ei \<noteq> None then (eval, ei)
         else (eval, fold (evaluateKings_step board US)
                          [max 0 (kingFile - 1) .. min 7 (kingFile + 1)] ei))"

subsection \<open>Passed pawns and threats\<close>

definition evaluatePassedPawns_step ::
  "EvalInfo \<Rightarrow> Board \<Rightarrow> Colour \<Rightarrow> int \<Rightarrow> bitboard \<Rightarrow> int \<Rightarrow> int" where
  "evaluatePassedPawns_step ei board US sq tempPawns eval =
     (let THEM = notColour US;
          occupied = colours board WHITE OR colours board BLACK;
          rank = relativeRankOf US sq;
          bitboard = pawnAdvance (push_bit (nat sq) 1) 0 US;
          canAdvance = (bitboard AND occupied = 0);
          safeAdvance = (bitboard AND attacked ei THEM = 0);
          eval = eval + PassedPawn ! of_bool canAdvance ! of_bool safeAdvance ! nat rank;
          dist = distanceBetween sq (kingSquare ei US);
          eval = eval + dist * PassedFriendlyDistance ! nat rank;
          dist = distanceBetween sq (kingSquare ei THEM);
          eval = eval + dist * PassedEnemyDistance ! nat rank;
          bitboard = forwardRanksMasks US (rankOf sq) AND Files (fileOf sq);
          flag = of_bool (bitboard AND attacked ei THEM = 0)
      in eval + flag * PassedSafePromotionPath)"

definition evaluatePassedPawns :: "EvalInfo \<Rightarrow> Board \<Rightarrow> Colour \<Rightarrow> int" where
  "evaluatePassedPawns ei board colour =
     (let US = colour;
          tempPawns = colours board US AND passedPawns ei
      in whileBits (evaluatePassedPawns_step ei board US) tempPawns 0)"

definition evaluateThreats :: "EvalInfo \<Rightarrow> Board \<Rightarrow> Colour \<Rightarrow> int" where
  "evaluateThreats ei board colour =
     (let US = colour;
          THEM = notColour colour;
          Rank3Rel = (if US = WHITE then RANK_3 else RANK_6);
          friendly = colours board US;
          enemy = colours board THEM;
          occupied = friendly OR enemy;
          pawns = friendly AND pieces board PAWN;
          knights = friendly AND pieces board KNIGHT;
          bishops = friendly AND pieces board BISHOP;
          rooks = friendly AND pieces board ROOK;
          queens = friendly AND pieces board QUEEN;
          attacksByPawns = attackedBy ei THEM PAWN;
          attacksByMinors = attackedBy ei THEM KNIGHT OR attackedBy ei THEM BISHOP;
          attacksByMajors = attackedBy ei THEM ROOK OR attackedBy ei THEM QUEEN;
          poorlyDefended = (attacked ei THEM AND NOT (attacked ei US))
                           OR (attackedBy2 ei THEM AND NOT (attackedBy2 ei US)
                               AND NOT (attackedBy ei US PAWN));
          overloaded = (knights OR bishops OR rooks OR queens)
                       AND attacked ei US AND NOT (attackedBy2 ei US)
                       AND attacked ei THEM AND NOT (attackedBy2 ei THEM);
          pushThreat = pawnAdvance pawns occupied US;
          pushThreat = pushThreat
                       OR pawnAdvance (pushThreat AND NOT attacksByPawns AND Rank3Rel) occupied US;
          pushThreat = pushThreat AND (NOT attacksByPawns AND (attacked ei US OR NOT (attacked ei THEM)));
          pushThreat = pawnAttackSpan pushThreat (enemy AND NOT (attackedBy ei US PAWN)) US;
          eval = 0;
          count = popcount (pawns AND NOT attacksByPawns AND poorlyDefended);
          eval = eval + count * ThreatWeakPawn;
          count = popcount ((knights OR bishops) AND attacksByPawns);
          eval = eval + count * ThreatMinorAttackedByPawn;
          count = popcount ((knights OR bishops) AND attacksByMinors);
          eval = eval + count * ThreatMinorAttackedByMinor;
          count = popcount ((knights OR bishops) AND poorlyDefended AND attacksByMajors);
          eval = eval + count * ThreatMinorAttackedByMajor;
          count = popcount (rooks AND (attacksByPawns OR attacksByMinors));
          eval = eval + count * ThreatRookAttackedByLesser;
          count = popcount (queens AND attacked ei THEM);
          eval = eval + count * ThreatQueenAttackedByOne;
          count = popcount overloaded;
          eval = eval + count * ThreatOverloadedPieces;
          count = popcount pushThreat;
          eval = eval + count * ThreatByPawnPush
      in eval)"

subsection \<open>The whole evaluation\<close>

text \<open>
  \<^verbatim>\<open>evaluatePieces\<close>. Where C subtracts the two calls of one evaluator, the call for
  White is made first; neither call reads what the other writes.
\<close>

definition evaluatePieces :: "EvalInfo \<Rightarrow> Board \<Rightarrow> int \<times> EvalInfo" where
  "evaluatePieces ei board =
     (let eval = 0;
          (w, ei) = evaluatePawns ei board WHITE;
          (b, ei) = evaluatePawns ei board BLACK;
          eval = eval + (w - b);
          (w, ei) = evaluateKnights ei board WHITE;
          (b, ei) = evaluateKnights ei board BLACK;
          eval = eval + (w - b);
          (w, ei) = evaluateBishops ei board WHITE;
          (b, ei) = evaluateBishops ei board BLACK;
          eval = eval + (w - b);
          (w, ei) = evaluateRooks ei board WHITE;
          (b, ei) = evaluateRooks ei board BLACK;
          eval = eval + (w - b);
          (w, ei) = evaluateQueens ei board WHITE;
          (b, ei) = evaluateQueens ei board BLACK;
          eval = eval + (w - b);
          (w, ei) = evaluateKings ei board WHITE;
          (b, ei) = evaluateKings ei board BLACK;
          eval = eval + (w - b);
          eval = eval + (evaluatePassedPawns ei board WHITE - evaluatePassedPawns ei board BLACK);
          eval = eval + (evaluateThreats ei board WHITE - evaluateThreats ei board BLACK)
      in (eval, ei))"

text \<open>
  The scale factors are an enum of \<^verbatim>\<open>evaluate.h\<close>, which is not among the sources: the
  enum is a datatype, and the number each name stands for is a parameter of
  \<open>evaluateBoard\<close>.
\<close>

datatype ScaleFactor =
  SCALE_OCB_BISHOPS_ONLY | SCALE_OCB_ONE_KNIGHT | SCALE_OCB_ONE_ROOK | SCALE_NORMAL

definition evaluateScaleFactor :: "Board \<Rightarrow> ScaleFactor" where
  "evaluateScaleFactor board =
     (let white = colours board WHITE;
          black = colours board BLACK;
          knights = pieces board KNIGHT;
          bishops = pieces board BISHOP;
          rooks = pieces board ROOK;
          queens = pieces board QUEEN
      in if onlyOne (white AND bishops) \<and> onlyOne (black AND bishops)
            \<and> onlyOne (bishops AND WHITE_SQUARES)
         then (if (knights OR rooks OR queens) = 0 then SCALE_OCB_BISHOPS_ONLY
               else if (rooks OR queens) = 0 \<and> onlyOne (white AND knights)
                       \<and> onlyOne (black AND knights)
                 then SCALE_OCB_ONE_KNIGHT
               else if (knights OR queens) = 0 \<and> onlyOne (white AND rooks)
                       \<and> onlyOne (black AND rooks)
                 then SCALE_OCB_ONE_ROOK
               else SCALE_NORMAL)
         else SCALE_NORMAL)"

text \<open>The game phase of \<^verbatim>\<open>evaluateBoard\<close> (the Fruit method), remapped to 0..256.\<close>

definition gamePhase :: "Board \<Rightarrow> int" where
  "gamePhase board =
     (let phase = 24 - 4 * popcount (pieces board QUEEN)
                     - 2 * popcount (pieces board ROOK)
                     - 1 * popcount (pieces board KNIGHT OR pieces board BISHOP)
      in cdiv (phase * 256 + 12) 24)"

definition evaluateBoard ::
  "(ScaleFactor \<Rightarrow> int) \<Rightarrow> Board \<Rightarrow> PawnKingTable option \<Rightarrow> int \<times> PawnKingTable option" where
  "evaluateBoard scale board pktable =
     (let ei = initializeEvalInfo board pktable;
          (eval, ei) = evaluatePieces ei board;
          pkevalDiff = pkeval ei WHITE - pkeval ei BLACK;
          eval = eval + (pkevalDiff + psqtmat board + Tempo (turn board));
          phase = gamePhase board;
          factor = scale (evaluateScaleFactor board);
          eval = cdiv (ScoreMG eval * (256 - phase)
                       + cdiv (ScoreEG eval * phase * factor) (scale SCALE_NORMAL)) 256;
          pktable = (case pktable of
                       None \<Rightarrow> None
                     | Some table \<Rightarrow>
                         if pkentry ei = None
                         then Some (storePawnKingEntry table (pkhash board) (passedPawns ei) pkevalDiff)
                         else Some table)
      in (if turn board = WHITE then eval else - eval, pktable))"

section \<open>Boards\<close>

text \<open>
  The invariants of the board representation (not among the sources) that the spec
  states: the two sides do not overlap, every piece bitboard lies within the two
  sides and no two kinds share a square, each side has one king, no pawn stands on
  the first or the last rank, and \<^verbatim>\<open>psqtmat\<close> is the sum of the \<open>PSQT\<close> entries of the
  pieces on the board.
\<close>

definition allPieces :: "Piece list" where
  "allPieces = [PAWN, KNIGHT, BISHOP, ROOK, QUEEN, KING]"

definition psqtSum :: "Board \<Rightarrow> int" where
  "psqtSum board =
     (\<Sum>colour \<leftarrow> [WHITE, BLACK]. \<Sum>kind \<leftarrow> allPieces. \<Sum>sq \<leftarrow> [0..63].
        if testBit (pieces board kind AND colours board colour) sq then PSQT colour kind sq else 0)"

definition occupancyOK :: "Board \<Rightarrow> bool" where
  "occupancyOK board =
     (colours board WHITE AND colours board BLACK = 0
      \<and> list_all (\<lambda>kind. pieces board kind AND NOT (colours board WHITE OR colours board BLACK) = 0)
            allPieces
      \<and> list_all (\<lambda>k1. list_all (\<lambda>k2. k1 = k2 \<or> pieces board k1 AND pieces board k2 = 0) allPieces)
            allPieces)"

definition boardOK :: "Board \<Rightarrow> bool" where
  "boardOK board =
     (occupancyOK board
      \<and> onlyOne (pieces board KING AND colours board WHITE)
      \<and> onlyOne (pieces board KING AND colours board BLACK)
      \<and> pieces board PAWN AND (Ranks 0 OR Ranks 7) = 0
      \<and> psqtmat board = psqtSum board)"

text \<open>The standard initial position, White to move.\<close>

definition startPosition :: Board where
  "startPosition =
     \<lparr>pieces = (\<lambda>kind. case kind of
                   PAWN \<Rightarrow> 0x00FF00000000FF00 | KNIGHT \<Rightarrow> 0x4200000000000042
                 | BISHOP \<Rightarrow> 0x2400000000000024 | ROOK \<Rightarrow> 0x8100000000000081
                 | QUEEN \<Rightarrow> 0x0800000000000008 | KING \<Rightarrow> 0x1000000000000010),
      colours = (\<lambda>colour. case colour of WHITE \<Rightarrow> 0xFFFF | BLACK \<Rightarrow> 0xFFFF000000000000),
      turn = WHITE, psqtmat = 0, pkhash = 0\<rparr>"

text \<open>\<^verbatim>\<open>8/8/8/3k4/8/8/1K6/8 w\<close>: the two kings alone.\<close>

definition bareKings :: Board where
  "bareKings =
     \<lparr>pieces = (\<lambda>kind. case kind of KING \<Rightarrow> 0x0000000800000200 | _ \<Rightarrow> 0),
      colours = (\<lambda>colour. case colour of WHITE \<Rightarrow> 0x200 | BLACK \<Rightarrow> 0x0000000800000000),
      turn = WHITE, psqtmat = PSQT WHITE KING 9 + PSQT BLACK KING 35, pkhash = 0\<rparr>"

text \<open>
  \<^verbatim>\<open>rnbqkb1r/pppppp1p/5n2/7Q/8/8/PPPPPPP1/RNBQKBNR b\<close>: the initial position after
  White's h-pawn has taken on g7, promoted on g8 (the knight had left for f6) and the
  new queen has gone to h5. Three queens, four rooks, four bishops and four knights are
  on the board.
\<close>

definition promotedQueen :: Board where
  "promotedQueen =
     \<lparr>pieces = (\<lambda>kind. case kind of
                   PAWN \<Rightarrow> 0x00BF000000007F00 | KNIGHT \<Rightarrow> 0x0200200000000042
                 | BISHOP \<Rightarrow> 0x2400000000000024 | ROOK \<Rightarrow> 0x8100000000000081
                 | QUEEN \<Rightarrow> 0x0800008000000008 | KING \<Rightarrow> 0x1000000000000010),
      colours = (\<lambda>colour. case colour of
                   WHITE \<Rightarrow> 0x0000008000007FFF | BLACK \<Rightarrow> 0xBFBF200000000000),
      turn = BLACK, psqtmat = S 1262 1343, pkhash = 0\<rparr>"

section \<open>The claims' own words\<close>

text \<open>The squares of a bitboard, as a set.\<close>

definition squaresOf :: "bitboard \<Rightarrow> nat set" where
  "squaresOf bb = {n. bit bb n}"

text \<open>
  The game phase as the spec words it: the material count taken from 24, clamped to be
  non-negative, then remapped with an integer division.
\<close>

definition specPhase :: "Board \<Rightarrow> int" where
  "specPhase board =
     (max 0 (24 - 4 * popcount (pieces board QUEEN) - 2 * popcount (pieces board ROOK)
                - (popcount (pieces board KNIGHT) + popcount (pieces board BISHOP)))
      * 256 + 12) div 24"

text \<open>
  The rook-on-seventh test as the claim words it: the rook on relative rank 7 counted
  from 0, the enemy king on relative rank 7 or beyond.
\<close>

definition claimedRookOnSeventh :: "EvalInfo \<Rightarrow> Colour \<Rightarrow> int \<Rightarrow> bool" where
  "claimedRookOnSeventh ei US sq =
     (relativeRankOf US sq = 7 \<and> relativeRankOf US (kingSquare ei (notColour US)) \<ge> 7)"

text \<open>\<^verbatim>\<open>4k3/R7/8/8/8/8/8/4K3 w\<close>: a white rook on a7, the black king on e8.\<close>

definition rookOnA7 :: Board where
  "rookOnA7 =
     \<lparr>pieces = (\<lambda>kind. case kind of
                   ROOK \<Rightarrow> 0x0001000000000000 | KING \<Rightarrow> 0x1000000000000010 | _ \<Rightarrow> 0),
      colours = (\<lambda>colour. case colour of
                   WHITE \<Rightarrow> 0x0001000000000010 | BLACK \<Rightarrow> 0x1000000000000000),
      turn = WHITE,
      psqtmat = PSQT WHITE ROOK 48 + PSQT WHITE KING 4 + PSQT BLACK KING 60,
      pkhash = 0\<rparr>"

text \<open>\<^verbatim>\<open>R3k3/8/8/8/8/8/8/4K3 b\<close>: the rook on a8, on the rank of the black king.\<close>

definition rookOnA8 :: Board where
  "rookOnA8 =
     \<lparr>pieces = (\<lambda>kind. case kind of
                   ROOK \<Rightarrow> 0x0100000000000000 | KING \<Rightarrow> 0x1000000000000010 | _ \<Rightarrow> 0),
      colours = (\<lambda>colour. case colour of
                   WHITE \<Rightarrow> 0x0100000000000010 | BLACK \<Rightarrow> 0x1000000000000000),
      turn = BLACK,
      psqtmat = PSQT WHITE ROOK 56 + PSQT WHITE KING 4 + PSQT BLACK KING 60,
      pkhash = 0\<rparr>"

text \<open>
  \<^verbatim>\<open>6k1/8/8/q7/q7/8/8/6K1 w\<close>: Black has two queens, on a5 and a4, neither of which
  attacks a square of the white king's area.
\<close>

definition twoQueens :: Board where
  "twoQueens =
     \<lparr>pieces = (\<lambda>kind. case kind of
                   QUEEN \<Rightarrow> 0x0000000101000000 | KING \<Rightarrow> 0x4000000000000040 | _ \<Rightarrow> 0),
      colours = (\<lambda>colour. case colour of
                   WHITE \<Rightarrow> 0x40 | BLACK \<Rightarrow> 0x4000000101000000),
      turn = WHITE,
      psqtmat = PSQT WHITE KING 6 + PSQT BLACK KING 62 + PSQT BLACK QUEEN 32 + PSQT BLACK QUEEN 24,
      pkhash = 0\<rparr>"

text \<open>
  The scratchpad as \<^verbatim>\<open>evaluateKings\<close> receives it from \<^verbatim>\<open>evaluatePieces\<close>: after the pawns,
  knights, bishops, rooks and queens of both sides.
\<close>

definition beforeKings :: "Board \<Rightarrow> PawnKingTable option \<Rightarrow> EvalInfo" where
  "beforeKings board pktable =
     (let ei = initializeEvalInfo board pktable;
          ei = snd (evaluatePawns ei board WHITE);
          ei = snd (evaluatePawns ei board BLACK);
          ei = snd (evaluateKnights ei board WHITE);
          ei = snd (evaluateKnights ei board BLACK);
          ei = snd (evaluateBishops ei board WHITE);
          ei = snd (evaluateBishops ei board BLACK);
          ei = snd (evaluateRooks ei board WHITE);
          ei = snd (evaluateRooks ei board BLACK);
          ei = snd (evaluateQueens ei board WHITE)
      in snd (evaluateQueens ei board BLACK))"

text \<open>
  The sets the spec names for a pawn of side \<open>US\<close> on \<open>sq\<close>: the enemy pawns on its
  passed-pawn mask, the enemy pawns attacking it, the own pawns defending it, the same
  two for the square one step ahead, and what is left of the stoppers.
\<close>

definition stoppers :: "Board \<Rightarrow> Colour \<Rightarrow> int \<Rightarrow> bitboard" where
  "stoppers board US sq =
     (pieces board PAWN AND colours board (notColour US)) AND passedPawnMasks US sq"

definition threats :: "Board \<Rightarrow> Colour \<Rightarrow> int \<Rightarrow> bitboard" where
  "threats board US sq =
     (pieces board PAWN AND colours board (notColour US)) AND pawnAttacksSq US sq"

definition support :: "Board \<Rightarrow> Colour \<Rightarrow> int \<Rightarrow> bitboard" where
  "support board US sq =
     (pieces board PAWN AND colours board US) AND pawnAttacksSq (notColour US) sq"

definition pushThreats :: "Board \<Rightarrow> Colour \<Rightarrow> int \<Rightarrow> bitboard" where
  "pushThreats board US sq = threats board US (sq + (if US = WHITE then 8 else -8))"

definition pushSupport :: "Board \<Rightarrow> Colour \<Rightarrow> int \<Rightarrow> bitboard" where
  "pushSupport board US sq = support board US (sq + (if US = WHITE then 8 else -8))"

definition leftovers :: "Board \<Rightarrow> Colour \<Rightarrow> int \<Rightarrow> bitboard" where
  "leftovers board US sq =
     stoppers board US sq XOR threats board US sq XOR pushThreats board US sq"

text \<open>
  The terms of a pawn that accumulate whatever its passed or candidate status: isolated,
  stacked (\<open>rest\<close> being the own pawns the loop has yet to visit), and backward or else
  connected.
\<close>

definition pawnStructureTerms :: "EvalInfo \<Rightarrow> Board \<Rightarrow> Colour \<Rightarrow> int \<Rightarrow> bitboard \<Rightarrow> int" where
  "pawnStructureTerms ei board US sq rest =
     (let myPawns = pieces board PAWN AND colours board US;
          enemyPawns = pieces board PAWN AND colours board (notColour US)
      in (if adjacentFilesMasks (fileOf sq) AND myPawns = 0 then PawnIsolated else 0)
         + (if Files (fileOf sq) AND rest \<noteq> 0 then PawnStacked else 0)
         + (if passedPawnMasks (notColour US) sq AND myPawns = 0
               \<and> testBit (pawnAttacks ei (notColour US)) (sq + (if US = WHITE then 8 else -8))
            then PawnBackwards ! of_bool (Files (fileOf sq) AND enemyPawns = 0)
            else if pawnConnectedMasks US sq AND myPawns \<noteq> 0
              then PawnConnected32 ! nat (relativeSquare32 sq US)
              else 0))"

text \<open>
  Opposite-coloured bishops as the spec words them: one bishop each, on different
  colour complexes.
\<close>

definition oppositeBishops :: "Board \<Rightarrow> bool" where
  "oppositeBishops board =
     (popcount (colours board WHITE AND pieces board BISHOP) = 1
      \<and> popcount (colours board BLACK AND pieces board BISHOP) = 1
      \<and> testBit WHITE_SQUARES (getlsb (colours board WHITE AND pieces board BISHOP))
          \<noteq> testBit WHITE_SQUARES (getlsb (colours board BLACK AND pieces board BISHOP)))"

text \<open>\<^verbatim>\<open>8/8/4k3/2b5/8/8/4B3/4K3 w\<close>: a light-squared bishop against a dark-squared one.\<close>

definition bishopsOnly :: Board where
  "bishopsOnly =
     \<lparr>pieces = (\<lambda>kind. case kind of
                   BISHOP \<Rightarrow> 0x0000000400001000 | KING \<Rightarrow> 0x0000100000000010 | _ \<Rightarrow> 0),
      colours = (\<lambda>colour. case colour of
                   WHITE \<Rightarrow> 0x1010 | BLACK \<Rightarrow> 0x0000100400000000),
      turn = WHITE,
      psqtmat = PSQT WHITE BISHOP 12 + PSQT WHITE KING 4 + PSQT BLACK BISHOP 34
                + PSQT BLACK KING 44,
      pkhash = 0\<rparr>"

text \<open>
  Two scratchpads of the same position, the first with a pawn-king cache entry (the hit
  path) and the second with none (the miss path): they agree on every field the cache
  does not decide, which leaves \<^verbatim>\<open>passedPawns\<close>, \<^verbatim>\<open>pkeval\<close> and \<^verbatim>\<open>pkentry\<close> free.
\<close>

definition hitMiss :: "EvalInfo \<Rightarrow> EvalInfo \<Rightarrow> bool" where
  "hitMiss h m \<longleftrightarrow>
     pkentry h \<noteq> None \<and> pkentry m = None
     \<and> h = m\<lparr>passedPawns := passedPawns h, pkeval := pkeval h, pkentry := pkentry h\<rparr>"

text \<open>
  The stacked-pawn penalty of one pass of the pawn loop, \<open>rest\<close> being the own pawns yet
  to be visited, and the other structure terms of the pawn.
\<close>

definition pawnStackedTerm :: "int \<Rightarrow> bitboard \<Rightarrow> int" where
  "pawnStackedTerm sq rest = (if Files (fileOf sq) AND rest \<noteq> 0 then PawnStacked else 0)"

definition pawnOtherTerms :: "EvalInfo \<Rightarrow> Board \<Rightarrow> Colour \<Rightarrow> int \<Rightarrow> int" where
  "pawnOtherTerms ei board US sq =
     (let myPawns = pieces board PAWN AND colours board US;
          enemyPawns = pieces board PAWN AND colours board (notColour US)
      in (if adjacentFilesMasks (fileOf sq) AND myPawns = 0 then PawnIsolated else 0)
         + (if passedPawnMasks (notColour US) sq AND myPawns = 0
               \<and> testBit (pawnAttacks ei (notColour US)) (sq + (if US = WHITE then 8 else -8))
            then PawnBackwards ! of_bool (Files (fileOf sq) AND enemyPawns = 0)
            else if pawnConnectedMasks US sq AND myPawns \<noteq> 0
              then PawnConnected32 ! nat (relativeSquare32 sq US)
              else 0))"

text \<open>
  The stacked test under any order of iteration: of the pawns in \<open>order\<close>, the number of
  those on file \<open>f\<close> that have an own pawn of the same file later in the order.
\<close>

fun stackedHits :: "int \<Rightarrow> nat list \<Rightarrow> nat" where
  "stackedHits f [] = 0"
| "stackedHits f (sq # later) =
     (if fileOf (int sq) = f \<and> list_ex (\<lambda>sq'. fileOf (int sq') = fileOf (int sq)) later
      then 1 else 0)
     + stackedHits f later"

definition pawnCandidateTerm :: "Board \<Rightarrow> Colour \<Rightarrow> int \<Rightarrow> int" where
  "pawnCandidateTerm board US sq =
     (if stoppers board US sq = 0 then 0
      else if leftovers board US sq = 0
              \<and> popcount (pushSupport board US sq) \<ge> popcount (pushThreats board US sq)
        then PawnCandidatePasser
               ! of_bool (popcount (support board US sq) \<ge> popcount (threats board US sq))
               ! nat (relativeRankOf US sq)
        else 0)"

text \<open>White pawns on a2, a3 and a4, kings on e1 and e8.\<close>

definition tripledPawns :: Board where
  "tripledPawns =
     \<lparr> pieces = (\<lambda>kind. case kind of
          PAWN \<Rightarrow> 0x0000000001010100 | KNIGHT \<Rightarrow> 0 | BISHOP \<Rightarrow> 0 | ROOK \<Rightarrow> 0 | QUEEN \<Rightarrow> 0
        | KING \<Rightarrow> 0x1000000000000010),
       colours = (\<lambda>colour. case colour of
          WHITE \<Rightarrow> 0x0000000001010110 | BLACK \<Rightarrow> 0x1000000000000000),
       turn = WHITE, psqtmat = 0, pkhash = 0 \<rparr>"

section \<open>Bitboards as sets of squares\<close>

text \<open>
  Clearing the lowest set bit by \<^verbatim>\<open>bb & (bb - 1)\<close>, the population count as a
  cardinality, and what \<open>getlsb\<close> returns.
\<close>

lemma nat_and_pred_bit:
  fixes m :: nat
  shows "bit m j \<Longrightarrow> (\<forall>i<j. \<not> bit m i) \<Longrightarrow> bit (m AND (m - 1)) n \<longleftrightarrow> bit m n \<and> n \<noteq> j"
proof (induction j arbitrary: m n)
  case 0
  then have "odd m" by (simp add: bit_0)
  moreover from this have "\<not> bit (m - 1) 0" by (simp add: bit_0)
  ultimately show ?case
    using odd_bit_iff_bit_pred [of m n] by (cases "n = 0") (auto simp: bit_and_iff)
next
  case (Suc j)
  from Suc.prems have ev: "even m" by (auto simp: bit_0)
  from Suc.prems have pos: "0 < m" by (cases "m = 0") auto
  define k where "k = m div 2"
  have mk: "m = 2 * k" using ev by (auto simp: k_def)
  have pred: "(m - 1) div 2 = k - 1" using mk pos by auto
  have bk: "bit k j" using Suc.prems(1) by (simp add: bit_Suc k_def)
  have lk: "\<forall>i<j. \<not> bit k i"
  proof (intro allI impI)
    fix i assume "i < j"
    then have "\<not> bit m (Suc i)" using Suc.prems(2) by simp
    then show "\<not> bit k i" by (simp add: bit_Suc k_def)
  qed
  have IH: "\<And>n. bit (k AND (k - 1)) n \<longleftrightarrow> bit k n \<and> n \<noteq> j"
    using Suc.IH [OF bk lk] .
  show ?case
  proof (cases n)
    case 0
    then show ?thesis using ev by (simp add: bit_0 even_and_iff)
  next
    case (Suc n')
    have "bit (m AND (m - 1)) (Suc n') \<longleftrightarrow> bit m (Suc n') \<and> bit (m - 1) (Suc n')"
      by (simp add: bit_and_iff)
    also have "\<dots> \<longleftrightarrow> bit k n' \<and> bit (k - 1) n'"
      unfolding bit_Suc pred by (simp add: k_def)
    also have "\<dots> \<longleftrightarrow> bit (k AND (k - 1)) n'"
      by (simp add: bit_and_iff)
    also have "\<dots> \<longleftrightarrow> bit k n' \<and> n' \<noteq> j" by (rule IH)
    also have "\<dots> \<longleftrightarrow> bit m (Suc n') \<and> Suc n' \<noteq> Suc j"
      by (simp add: bit_Suc k_def)
    finally show ?thesis using Suc by simp
  qed
qed

lemma word_and_pred_bit:
  fixes w :: "'a::len word"
  assumes "bit w j" and "\<forall>i<j. \<not> bit w i"
  shows "bit (w AND (w - 1)) n \<longleftrightarrow> bit w n \<and> n \<noteq> j"
proof -
  have nz: "w \<noteq> 0" using assms(1) by auto
  have a: "bit (unat w) j" using assms(1) by (simp add: bit_unsigned_iff bit_imp_possible_bit)
  have b: "\<forall>i<j. \<not> bit (unat w) i" using assms(2) by (simp add: bit_unsigned_iff)
  have "bit (w AND (w - 1)) n \<longleftrightarrow> n < LENGTH('a) \<and> bit (unat (w AND (w - 1))) n"
    by (auto simp: bit_unsigned_iff dest: bit_imp_le_length)
  also have "unat (w AND (w - 1)) = unat w AND (unat w - 1)"
    by (simp add: unsigned_and_eq unat_minus_one nz)
  also have "n < LENGTH('a) \<and> bit (unat w AND (unat w - 1)) n \<longleftrightarrow> n < LENGTH('a) \<and> bit (unat w) n \<and> n \<noteq> j"
    using nat_and_pred_bit [OF a b] by simp
  also have "\<dots> \<longleftrightarrow> bit w n \<and> n \<noteq> j"
    by (auto simp: bit_unsigned_iff dest: bit_imp_le_length)
  finally show ?thesis .
qed

lemma bit64: "bit (bb :: bitboard) n \<Longrightarrow> n < 64"
  by (drule bit_imp_le_length) simp

lemma squaresOf_bound: "n \<in> squaresOf bb \<Longrightarrow> n < 64"
  by (auto simp: squaresOf_def dest: bit64)

lemma finite_squaresOf [simp]: "finite (squaresOf bb)"
  by (rule finite_subset [of _ "{..<64}"]) (auto dest: squaresOf_bound)

lemma squaresOf_and: "squaresOf (a AND b) = squaresOf a \<inter> squaresOf b"
  by (auto simp: squaresOf_def bit_and_iff)

lemma squaresOf_or: "squaresOf (a OR b) = squaresOf a \<union> squaresOf b"
  by (auto simp: squaresOf_def bit_or_iff)

lemma squaresOf_0 [simp]: "squaresOf 0 = {}"
  by (simp add: squaresOf_def)

lemma squaresOf_empty_iff: "squaresOf bb = {} \<longleftrightarrow> bb = 0"
  by (auto simp: squaresOf_def bit_eq_iff dest: bit64)

lemma squaresOf_inject: "squaresOf a = squaresOf b \<longleftrightarrow> a = b"
  by (auto simp: squaresOf_def bit_eq_iff dest: bit64)

lemma popcount_card: "popcount bb = int (card (squaresOf bb))"
proof -
  have "(i < length [0..<64] \<and> bit bb ([0..<64] ! i)) = bit bb i" for i
    by (cases "i < 64") (auto dest: bit64)
  then have "{i. i < length [0..<64] \<and> bit bb ([0..<64] ! i)} = squaresOf bb"
    unfolding squaresOf_def by (rule Collect_cong)
  then show ?thesis
    unfolding popcount_def length_filter_conv_card by simp
qed

lemma popcount_or_disjoint: "a AND b = 0 \<Longrightarrow> popcount (a OR b) = popcount a + popcount b"
proof -
  assume "a AND b = 0"
  then have "squaresOf a \<inter> squaresOf b = {}"
    by (metis squaresOf_and squaresOf_0)
  then show ?thesis
    by (simp add: popcount_card squaresOf_or card_Un_disjoint)
qed

lemma popcount_nonneg: "0 \<le> popcount bb"
  by (simp add: popcount_card)

lemma cdiv_nonneg: "0 \<le> a \<Longrightarrow> 0 < b \<Longrightarrow> cdiv a b = a div b"
  by (cases "a = 0") (simp_all add: cdiv_def)

lemma getlsb_props:
  assumes "bb \<noteq> 0"
  shows "0 \<le> getlsb bb" and "getlsb bb < 64" and "bit bb (nat (getlsb bb))"
    and "\<forall>i < nat (getlsb bb). \<not> bit bb i"
proof -
  let ?P = "\<lambda>n. \<not> bit bb n"
  let ?k = "length (takeWhile ?P [0..<64])"
  obtain n where n: "bit bb n" using assms by (auto simp: bit_eq_iff)
  then have n64: "n < 64" by (rule bit64)
  have "takeWhile ?P [0..<64] \<noteq> [0..<64]"
  proof
    assume "takeWhile ?P [0..<64] = [0..<64]"
    then have "\<forall>x \<in> set [0..<64]. ?P x" by (rule takeWhile_eq_all_conv [THEN iffD1])
    then show False using n n64 by auto
  qed
  then have lt: "?k < length [0..<64]"
    using length_takeWhile_le [of ?P "[0..<64]"] 
    by (metis takeWhile_eq_take take_all_iff linorder_not_le)
  then have k64: "?k < 64" by simp
  have "\<not> ?P ([0..<64] ! ?k)" using lt by (rule nth_length_takeWhile)
  then have bk: "bit bb ?k" using k64 by simp
  have low: "\<forall>i < ?k. \<not> bit bb i"
  proof (intro allI impI)
    fix i assume i: "i < ?k"
    then have "takeWhile ?P [0..<64] ! i \<in> set (takeWhile ?P [0..<64])" by simp
    then have "?P (takeWhile ?P [0..<64] ! i)" by (rule set_takeWhileD [THEN conjunct2])
    moreover have "takeWhile ?P [0..<64] ! i = [0..<64] ! i" using i by (rule takeWhile_nth)
    ultimately show "\<not> bit bb i" using i k64 by simp
  qed
  show "0 \<le> getlsb bb" by (simp add: getlsb_def)
  show "getlsb bb < 64" using k64 by (simp add: getlsb_def)
  show "bit bb (nat (getlsb bb))" using bk by (simp add: getlsb_def)
  show "\<forall>i < nat (getlsb bb). \<not> bit bb i" using low by (simp add: getlsb_def)
qed

section \<open>The piece loops\<close>

text \<open>
  Unfolding \<open>whileBits\<close>, the squares left after a pop, an invariant rule, and the
  value a loop adds up: the sum of the terms of its squares, each term seeing the
  squares above its own as the rest of the loop variable.
\<close>

lemma whileBits_0 [simp]: "whileBits body 0 s = s"
  by (simp add: whileBits.simps)

lemma whileBits_step:
  "bb \<noteq> 0 \<Longrightarrow> whileBits body bb s
     = whileBits body (bb AND (bb - 1)) (body (getlsb bb) (bb AND (bb - 1)) s)"
  by (subst whileBits.simps) (simp add: poplsb_def)

lemma squaresOf_poplsb:
  "bb \<noteq> 0 \<Longrightarrow> squaresOf (bb AND (bb - 1)) = squaresOf bb - {nat (getlsb bb)}"
  using word_and_pred_bit [OF getlsb_props(3) getlsb_props(4), of bb]
  by (auto simp: squaresOf_def)

lemma getlsb_in: "bb \<noteq> 0 \<Longrightarrow> nat (getlsb bb) \<in> squaresOf bb"
  by (simp add: squaresOf_def getlsb_props)

lemma getlsb_least: "n \<in> squaresOf bb \<Longrightarrow> nat (getlsb bb) \<le> n"
proof -
  assume n: "n \<in> squaresOf bb"
  then have "bb \<noteq> 0" using squaresOf_empty_iff by auto
  then show ?thesis
    using getlsb_props(4) [of bb] n by (auto simp: squaresOf_def not_less [symmetric])
qed

lemma card_poplsb: "bb \<noteq> 0 \<Longrightarrow> card (squaresOf (bb AND (bb - 1))) < card (squaresOf bb)"
  using card_Diff1_less [OF finite_squaresOf getlsb_in, of bb] by (simp add: squaresOf_poplsb)

lemma bit_rest_above:
  "bit ((bb :: bitboard) AND NOT (mask (Suc n))) m \<longleftrightarrow> bit bb m \<and> n < m"
  by (auto simp: bit_and_iff bit_not_iff bit_mask_iff dest: bit64)

lemma rest_above_lsb:
  assumes "bb \<noteq> 0"
  shows "bb AND NOT (mask (Suc (nat (getlsb bb)))) = bb AND (bb - 1)"
proof (rule bit_eqI)
  fix n
  let ?k = "nat (getlsb bb)"
  have a: "bit (bb AND (bb - 1)) n \<longleftrightarrow> bit bb n \<and> n \<noteq> ?k"
    using word_and_pred_bit [OF getlsb_props(3) getlsb_props(4), OF assms assms] .
  have b: "bit bb n \<Longrightarrow> ?k \<le> n"
    using getlsb_least [of n bb] by (simp add: squaresOf_def)
  show "bit (bb AND NOT (mask (Suc ?k))) n \<longleftrightarrow> bit (bb AND (bb - 1)) n"
    unfolding a bit_rest_above using b by auto
qed

lemma rest_above_later:
  assumes "bb \<noteq> 0" and "n \<in> squaresOf (bb AND (bb - 1))"
  shows "(bb AND (bb - 1)) AND NOT (mask (Suc n)) = bb AND NOT (mask (Suc n))"
proof (rule bit_eqI)
  fix m
  let ?k = "nat (getlsb bb)"
  have a: "\<And>j. bit (bb AND (bb - 1)) j \<longleftrightarrow> bit bb j \<and> j \<noteq> ?k"
    using word_and_pred_bit [OF getlsb_props(3) getlsb_props(4), OF assms(1) assms(1)] .
  have "n \<in> squaresOf bb" "n \<noteq> ?k" using assms by (auto simp: squaresOf_poplsb)
  then have "?k < n" using getlsb_least [of n bb] by simp
  then show "bit ((bb AND (bb - 1)) AND NOT (mask (Suc n))) m
             \<longleftrightarrow> bit (bb AND NOT (mask (Suc n))) m"
    unfolding bit_rest_above a by auto
qed

lemma Min_squaresOf: "bb \<noteq> 0 \<Longrightarrow> Min (squaresOf bb) = nat (getlsb bb)"
  by (rule Min_eqI) (auto simp: getlsb_in getlsb_least)

lemma whileBits_fold:
  "whileBits body bb s
   = fold (\<lambda>n. body (int n) (bb AND NOT (mask (Suc n)))) (sorted_list_of_set (squaresOf bb)) s"
proof (induction "card (squaresOf bb)" arbitrary: bb s rule: less_induct)
  case less
  show ?case
  proof (cases "bb = 0")
    case True
    then show ?thesis by simp
  next
    case False
    let ?k = "nat (getlsb bb)"
    let ?r = "bb AND (bb - 1)"
    have ne: "squaresOf bb \<noteq> {}" using False by (simp add: squaresOf_empty_iff)
    have sl: "sorted_list_of_set (squaresOf bb) = ?k # sorted_list_of_set (squaresOf ?r)"
      using sorted_list_of_set_nonempty [OF finite_squaresOf ne]
      by (simp add: Min_squaresOf [OF False] squaresOf_poplsb [OF False])
    have k: "int ?k = getlsb bb" using getlsb_props(1) [OF False] by simp
    have "fold (\<lambda>n. body (int n) (?r AND NOT (mask (Suc n)))) (sorted_list_of_set (squaresOf ?r)) s'
          = fold (\<lambda>n. body (int n) (bb AND NOT (mask (Suc n)))) (sorted_list_of_set (squaresOf ?r)) s'"
      for s'
      by (rule fold_cong) (simp_all add: rest_above_later [OF False])
    then show ?thesis
      unfolding whileBits_step [OF False] less.hyps [OF card_poplsb [OF False]] sl
      using getlsb_props(1) [OF False] by (simp add: rest_above_lsb [OF False])
  qed
qed

lemma set_sorted_squares: "set (sorted_list_of_set (squaresOf bb)) = squaresOf bb"
  by simp

lemma fold_invariant_set:
  assumes "\<And>x s. x \<in> set xs \<Longrightarrow> I s \<Longrightarrow> I (f x s)" and "I s"
  shows "I (fold f xs s)"
  using assms by (induction xs arbitrary: s) auto

lemma whileBits_invariant_on:
  assumes "\<And>sq rest s. nat sq \<in> squaresOf bb \<Longrightarrow> 0 \<le> sq \<Longrightarrow> I s \<Longrightarrow> I (body sq rest s)"
    and "I s"
  shows "I (whileBits body bb s)"
  unfolding whileBits_fold
  by (rule fold_invariant_set [where I = I]) (auto intro: assms)

lemma fold_rel_set:
  assumes "\<And>x s s'. x \<in> set xs \<Longrightarrow> R s s' \<Longrightarrow> R (f x s) (g x s')" and "R s s'"
  shows "R (fold f xs s) (fold g xs s')"
  using assms by (induction xs arbitrary: s s') auto

lemma whileBits_rel:
  assumes "\<And>sq rest s s'. nat sq \<in> squaresOf bb \<Longrightarrow> 0 \<le> sq \<Longrightarrow> R s s'
             \<Longrightarrow> R (body sq rest s) (body' sq rest s')"
    and "R s s'"
  shows "R (whileBits body bb s) (whileBits body' bb s')"
  unfolding whileBits_fold
  by (rule fold_rel_set [where R = R]) (auto intro: assms)

lemma whileBits_sum_on:
  fixes t :: "int \<Rightarrow> bitboard \<Rightarrow> int"
  assumes step: "\<And>sq rest st e. nat sq \<in> squaresOf bb \<Longrightarrow> 0 \<le> sq \<Longrightarrow> I st
                   \<Longrightarrow> snd (body sq rest (st, e)) = e + t sq rest"
    and inv: "\<And>sq rest st e. nat sq \<in> squaresOf bb \<Longrightarrow> 0 \<le> sq \<Longrightarrow> I st
                   \<Longrightarrow> I (fst (body sq rest (st, e)))"
    and "I st"
  shows "snd (whileBits body bb (st, e))
         = e + (\<Sum>n \<in> squaresOf bb. t (int n) (bb AND NOT (mask (Suc n))))"
proof -
  have "I (fst (fold (\<lambda>n. body (int n) (bb AND NOT (mask (Suc n)))) xs (st, e)))
        \<and> snd (fold (\<lambda>n. body (int n) (bb AND NOT (mask (Suc n)))) xs (st, e))
          = e + (\<Sum>n \<leftarrow> xs. t (int n) (bb AND NOT (mask (Suc n))))"
    if "set xs \<subseteq> squaresOf bb" for xs
    using that assms(3)
  proof (induction xs arbitrary: st e)
    case Nil
    then show ?case by simp
  next
    case (Cons x xs)
    obtain st' e' where b: "body (int x) (bb AND NOT (mask (Suc x))) (st, e) = (st', e')"
      by (cases "body (int x) (bb AND NOT (mask (Suc x))) (st, e)")
    have x: "nat (int x) \<in> squaresOf bb" "0 \<le> int x" using Cons.prems(1) by auto
    have e': "e' = e + t (int x) (bb AND NOT (mask (Suc x)))"
      using step [OF x Cons.prems(2), of "bb AND NOT (mask (Suc x))" e] by (simp add: b)
    have st': "I st'"
      using inv [OF x Cons.prems(2), of "bb AND NOT (mask (Suc x))" e] by (simp add: b)
    show ?case
      using Cons.IH [OF _ st', of e'] Cons.prems(1) by (simp add: b e' add.assoc)
  qed
  from this [of "sorted_list_of_set (squaresOf bb)"] show ?thesis
    unfolding whileBits_fold
    by (simp add: sum_list_distinct_conv_sum_set)
qed

lemma whileBits_union_on:
  fixes p :: "'s \<Rightarrow> 'a set"
  assumes step: "\<And>sq rest st. nat sq \<in> squaresOf bb \<Longrightarrow> 0 \<le> sq \<Longrightarrow> I st
                   \<Longrightarrow> p (body sq rest st) = p st \<union> A sq"
    and inv: "\<And>sq rest st. nat sq \<in> squaresOf bb \<Longrightarrow> 0 \<le> sq \<Longrightarrow> I st \<Longrightarrow> I (body sq rest st)"
    and "I st"
  shows "p (whileBits body bb st) = p st \<union> (\<Union>n \<in> squaresOf bb. A (int n))"
proof -
  have "I (fold (\<lambda>n. body (int n) (bb AND NOT (mask (Suc n)))) xs st)
        \<and> p (fold (\<lambda>n. body (int n) (bb AND NOT (mask (Suc n)))) xs st)
          = p st \<union> (\<Union>n \<in> set xs. A (int n))"
    if "set xs \<subseteq> squaresOf bb" for xs
    using that assms(3)
  proof (induction xs arbitrary: st)
    case Nil
    then show ?case by simp
  next
    case (Cons x xs)
    have x: "nat (int x) \<in> squaresOf bb" "0 \<le> int x" using Cons.prems(1) by auto
    show ?case
      using Cons.IH [OF _ inv [OF x Cons.prems(2)], of "bb AND NOT (mask (Suc x))"] Cons.prems(1)
      by (auto simp: step [OF x Cons.prems(2)])
  qed
  from this [of "sorted_list_of_set (squaresOf bb)"] show ?thesis
    unfolding whileBits_fold by simp
qed

lemma squaresOf_single: "n < 64 \<Longrightarrow> squaresOf (2 ^ n) = {n}"
  by (auto simp: squaresOf_def bit_exp_iff)

lemma squaresOf_setBit:
  "0 \<le> sq \<Longrightarrow> sq < 64 \<Longrightarrow> squaresOf (setBit bb sq) = insert (nat sq) (squaresOf bb)"
  by (auto simp: squaresOf_def setBit_def bit_or_iff bit_exp_iff)

lemma onlyOne_iff: "onlyOne bb \<longleftrightarrow> popcount bb = 1"
proof (cases "bb = 0")
  case True
  then show ?thesis by (simp add: onlyOne_def popcount_card)
next
  case False
  have "bb AND (bb - 1) = 0 \<longleftrightarrow> squaresOf bb - {nat (getlsb bb)} = {}"
    using squaresOf_poplsb [OF False] squaresOf_empty_iff [of "bb AND (bb - 1)"] by simp
  also have "\<dots> \<longleftrightarrow> squaresOf bb = {nat (getlsb bb)}"
    using getlsb_in [OF False] by auto
  also have "\<dots> \<longleftrightarrow> card (squaresOf bb) = 1"
    using getlsb_in [OF False] by (auto simp: card_1_singleton_iff)
  finally show ?thesis using False by (simp add: onlyOne_def popcount_card)
qed

lemma popcount_one_squares: "popcount bb = 1 \<Longrightarrow> squaresOf bb = {nat (getlsb bb)}"
proof -
  assume "popcount bb = 1"
  then have c: "card (squaresOf bb) = 1" by (simp add: popcount_card)
  then have "bb \<noteq> 0" using squaresOf_empty_iff [of bb] by auto
  then show ?thesis
    using c getlsb_in [of bb] by (auto simp: card_1_singleton_iff)
qed

lemma testBit_squares: "0 \<le> sq \<Longrightarrow> testBit bb sq \<longleftrightarrow> nat sq \<in> squaresOf bb"
  by (simp add: testBit_def squaresOf_def)

section \<open>What the shared assignments leave alone\<close>

lemma storeAttacks_static [simp]:
  "mobilityAreas (storeAttacks ei US kind attacks) = mobilityAreas ei"
  "occupiedMinusRooks (storeAttacks ei US kind attacks) = occupiedMinusRooks ei"
  "occupiedMinusBishops (storeAttacks ei US kind attacks) = occupiedMinusBishops ei"
  "kingSquare (storeAttacks ei US kind attacks) = kingSquare ei"
  "kingAreas (storeAttacks ei US kind attacks) = kingAreas ei"
  "pawnAttacks (storeAttacks ei US kind attacks) = pawnAttacks ei"
  "rammedPawns (storeAttacks ei US kind attacks) = rammedPawns ei"
  "passedPawns (storeAttacks ei US kind attacks) = passedPawns ei"
  "pkeval (storeAttacks ei US kind attacks) = pkeval ei"
  "pkentry (storeAttacks ei US kind attacks) = pkentry ei"
  by (simp_all add: storeAttacks_def Let_def)

lemma updateKingSafety_static [simp]:
  "mobilityAreas (updateKingSafety ei US kind attacks) = mobilityAreas ei"
  "occupiedMinusRooks (updateKingSafety ei US kind attacks) = occupiedMinusRooks ei"
  "occupiedMinusBishops (updateKingSafety ei US kind attacks) = occupiedMinusBishops ei"
  "kingSquare (updateKingSafety ei US kind attacks) = kingSquare ei"
  "kingAreas (updateKingSafety ei US kind attacks) = kingAreas ei"
  "pawnAttacks (updateKingSafety ei US kind attacks) = pawnAttacks ei"
  "rammedPawns (updateKingSafety ei US kind attacks) = rammedPawns ei"
  "passedPawns (updateKingSafety ei US kind attacks) = passedPawns ei"
  "pkeval (updateKingSafety ei US kind attacks) = pkeval ei"
  "pkentry (updateKingSafety ei US kind attacks) = pkentry ei"
  "attacked (updateKingSafety ei US kind attacks) = attacked ei"
  "attackedBy (updateKingSafety ei US kind attacks) = attackedBy ei"
  "attackedBy2 (updateKingSafety ei US kind attacks) = attackedBy2 ei"
  by (simp_all add: updateKingSafety_def)

section \<open>The piece evaluators and the pawn-king fields\<close>

text \<open>
  The evaluators of the knights, bishops, rooks and queens neither read nor write
  \<^verbatim>\<open>passedPawns\<close>, \<^verbatim>\<open>pkeval\<close> and \<^verbatim>\<open>pkentry\<close>: they commute with any assignment to them.
\<close>

lemma storeAttacks_pk:
  "storeAttacks (ei\<lparr>passedPawns := p, pkeval := k, pkentry := e\<rparr>) US kind attacks
   = (storeAttacks ei US kind attacks)\<lparr>passedPawns := p, pkeval := k, pkentry := e\<rparr>"
  by (simp add: storeAttacks_def Let_def)

lemma updateKingSafety_pk:
  "updateKingSafety (ei\<lparr>passedPawns := p, pkeval := k, pkentry := e\<rparr>) US kind attacks
   = (updateKingSafety ei US kind attacks)\<lparr>passedPawns := p, pkeval := k, pkentry := e\<rparr>"
  by (simp add: updateKingSafety_def)

lemma attackedBy_pk_commute:
  "ei\<lparr>passedPawns := p, pkeval := k, pkentry := e, attackedBy := X\<rparr>
   = ei\<lparr>attackedBy := X, passedPawns := p, pkeval := k, pkentry := e\<rparr>"
  by (cases ei) simp

lemma whileBits_frame:
  assumes "\<And>sq rest st ev. body sq rest (upd st, ev)
             = (upd (fst (body sq rest (st, ev))), snd (body sq rest (st, ev)))"
  shows "whileBits body bb (upd st, ev)
         = (upd (fst (whileBits body bb (st, ev))), snd (whileBits body bb (st, ev)))"
proof -
  have "(\<lambda>s s'. s' = (upd (fst s), snd s)) (whileBits body bb (st, ev)) (whileBits body bb (upd st, ev))"
    by (rule whileBits_rel) (auto simp: assms)
  then show ?thesis by simp
qed

lemma evaluateKnights_pk:
  "evaluateKnights (ei\<lparr>passedPawns := p, pkeval := k, pkentry := e\<rparr>) board c
   = (fst (evaluateKnights ei board c),
      (snd (evaluateKnights ei board c))\<lparr>passedPawns := p, pkeval := k, pkentry := e\<rparr>)"
proof -
  have step: "evaluateKnights_step board c sq rest (st\<lparr>passedPawns := p, pkeval := k, pkentry := e\<rparr>, ev)
      = ((fst (evaluateKnights_step board c sq rest (st, ev)))\<lparr>passedPawns := p, pkeval := k, pkentry := e\<rparr>,
         snd (evaluateKnights_step board c sq rest (st, ev)))" for sq rest st ev
    by (simp add: evaluateKnights_step_def Let_def storeAttacks_pk updateKingSafety_pk)
  define ei0 where "ei0 = ei\<lparr>attackedBy := (attackedBy ei)(c := (attackedBy ei c)(KNIGHT := 0))\<rparr>"
  define ev0 :: int where "ev0 = 0"
  let ?W = "whileBits (evaluateKnights_step board c) (pieces board KNIGHT AND colours board c)"
  have w: "?W (ei0\<lparr>passedPawns := p, pkeval := k, pkentry := e\<rparr>, ev0)
           = ((fst (?W (ei0, ev0)))\<lparr>passedPawns := p, pkeval := k, pkentry := e\<rparr>, snd (?W (ei0, ev0)))"
    by (rule whileBits_frame [of "evaluateKnights_step board c"
        "\<lambda>st. st\<lparr>passedPawns := p, pkeval := k, pkentry := e\<rparr>", OF step])
  have a: "evaluateKnights (ei\<lparr>passedPawns := p, pkeval := k, pkentry := e\<rparr>) board c
           = (snd (?W (ei0\<lparr>passedPawns := p, pkeval := k, pkentry := e\<rparr>, ev0)),
              fst (?W (ei0\<lparr>passedPawns := p, pkeval := k, pkentry := e\<rparr>, ev0)))"
    by (simp add: evaluateKnights_def Let_def case_prod_beta ei0_def ev0_def attackedBy_pk_commute)
  have b: "evaluateKnights ei board c = (snd (?W (ei0, ev0)), fst (?W (ei0, ev0)))"
    by (simp add: evaluateKnights_def Let_def case_prod_beta ei0_def ev0_def)
  show ?thesis
    unfolding a b w by simp
qed

lemma evaluateBishops_pk:
  "evaluateBishops (ei\<lparr>passedPawns := p, pkeval := k, pkentry := e\<rparr>) board c
   = (fst (evaluateBishops ei board c),
      (snd (evaluateBishops ei board c))\<lparr>passedPawns := p, pkeval := k, pkentry := e\<rparr>)"
proof -
  have step: "evaluateBishops_step board c sq rest (st\<lparr>passedPawns := p, pkeval := k, pkentry := e\<rparr>, ev)
      = ((fst (evaluateBishops_step board c sq rest (st, ev)))\<lparr>passedPawns := p, pkeval := k, pkentry := e\<rparr>,
         snd (evaluateBishops_step board c sq rest (st, ev)))" for sq rest st ev
    by (simp add: evaluateBishops_step_def Let_def storeAttacks_pk updateKingSafety_pk)
  define ei0 where "ei0 = ei\<lparr>attackedBy := (attackedBy ei)(c := (attackedBy ei c)(BISHOP := 0))\<rparr>"
  define ev0 :: int where "ev0 = (if (pieces board BISHOP AND colours board c) AND WHITE_SQUARES \<noteq> 0
                \<and> (pieces board BISHOP AND colours board c) AND BLACK_SQUARES \<noteq> 0
             then 0 + BishopPair else 0)"
  let ?W = "whileBits (evaluateBishops_step board c) (pieces board BISHOP AND colours board c)"
  have w: "?W (ei0\<lparr>passedPawns := p, pkeval := k, pkentry := e\<rparr>, ev0)
           = ((fst (?W (ei0, ev0)))\<lparr>passedPawns := p, pkeval := k, pkentry := e\<rparr>, snd (?W (ei0, ev0)))"
    by (rule whileBits_frame [of "evaluateBishops_step board c"
        "\<lambda>st. st\<lparr>passedPawns := p, pkeval := k, pkentry := e\<rparr>", OF step])
  have a: "evaluateBishops (ei\<lparr>passedPawns := p, pkeval := k, pkentry := e\<rparr>) board c
           = (snd (?W (ei0\<lparr>passedPawns := p, pkeval := k, pkentry := e\<rparr>, ev0)),
              fst (?W (ei0\<lparr>passedPawns := p, pkeval := k, pkentry := e\<rparr>, ev0)))"
    by (simp add: evaluateBishops_def Let_def case_prod_beta ei0_def ev0_def attackedBy_pk_commute)
  have b: "evaluateBishops ei board c = (snd (?W (ei0, ev0)), fst (?W (ei0, ev0)))"
    by (simp add: evaluateBishops_def Let_def case_prod_beta ei0_def ev0_def)
  show ?thesis
    unfolding a b w by simp
qed

lemma evaluateRooks_pk:
  "evaluateRooks (ei\<lparr>passedPawns := p, pkeval := k, pkentry := e\<rparr>) board c
   = (fst (evaluateRooks ei board c),
      (snd (evaluateRooks ei board c))\<lparr>passedPawns := p, pkeval := k, pkentry := e\<rparr>)"
proof -
  have step: "evaluateRooks_step board c sq rest (st\<lparr>passedPawns := p, pkeval := k, pkentry := e\<rparr>, ev)
      = ((fst (evaluateRooks_step board c sq rest (st, ev)))\<lparr>passedPawns := p, pkeval := k, pkentry := e\<rparr>,
         snd (evaluateRooks_step board c sq rest (st, ev)))" for sq rest st ev
    by (simp add: evaluateRooks_step_def Let_def storeAttacks_pk updateKingSafety_pk)
  define ei0 where "ei0 = ei\<lparr>attackedBy := (attackedBy ei)(c := (attackedBy ei c)(ROOK := 0))\<rparr>"
  define ev0 :: int where "ev0 = 0"
  let ?W = "whileBits (evaluateRooks_step board c) (pieces board ROOK AND colours board c)"
  have w: "?W (ei0\<lparr>passedPawns := p, pkeval := k, pkentry := e\<rparr>, ev0)
           = ((fst (?W (ei0, ev0)))\<lparr>passedPawns := p, pkeval := k, pkentry := e\<rparr>, snd (?W (ei0, ev0)))"
    by (rule whileBits_frame [of "evaluateRooks_step board c"
        "\<lambda>st. st\<lparr>passedPawns := p, pkeval := k, pkentry := e\<rparr>", OF step])
  have a: "evaluateRooks (ei\<lparr>passedPawns := p, pkeval := k, pkentry := e\<rparr>) board c
           = (snd (?W (ei0\<lparr>passedPawns := p, pkeval := k, pkentry := e\<rparr>, ev0)),
              fst (?W (ei0\<lparr>passedPawns := p, pkeval := k, pkentry := e\<rparr>, ev0)))"
    by (simp add: evaluateRooks_def Let_def case_prod_beta ei0_def ev0_def attackedBy_pk_commute)
  have b: "evaluateRooks ei board c = (snd (?W (ei0, ev0)), fst (?W (ei0, ev0)))"
    by (simp add: evaluateRooks_def Let_def case_prod_beta ei0_def ev0_def)
  show ?thesis
    unfolding a b w by simp
qed

lemma evaluateQueens_pk:
  "evaluateQueens (ei\<lparr>passedPawns := p, pkeval := k, pkentry := e\<rparr>) board c
   = (fst (evaluateQueens ei board c),
      (snd (evaluateQueens ei board c))\<lparr>passedPawns := p, pkeval := k, pkentry := e\<rparr>)"
proof -
  have step: "evaluateQueens_step board c sq rest (st\<lparr>passedPawns := p, pkeval := k, pkentry := e\<rparr>, ev)
      = ((fst (evaluateQueens_step board c sq rest (st, ev)))\<lparr>passedPawns := p, pkeval := k, pkentry := e\<rparr>,
         snd (evaluateQueens_step board c sq rest (st, ev)))" for sq rest st ev
    by (simp add: evaluateQueens_step_def Let_def storeAttacks_pk updateKingSafety_pk)
  define ei0 where "ei0 = ei\<lparr>attackedBy := (attackedBy ei)(c := (attackedBy ei c)(QUEEN := 0))\<rparr>"
  define ev0 :: int where "ev0 = 0"
  let ?W = "whileBits (evaluateQueens_step board c) (pieces board QUEEN AND colours board c)"
  have w: "?W (ei0\<lparr>passedPawns := p, pkeval := k, pkentry := e\<rparr>, ev0)
           = ((fst (?W (ei0, ev0)))\<lparr>passedPawns := p, pkeval := k, pkentry := e\<rparr>, snd (?W (ei0, ev0)))"
    by (rule whileBits_frame [of "evaluateQueens_step board c"
        "\<lambda>st. st\<lparr>passedPawns := p, pkeval := k, pkentry := e\<rparr>", OF step])
  have a: "evaluateQueens (ei\<lparr>passedPawns := p, pkeval := k, pkentry := e\<rparr>) board c
           = (snd (?W (ei0\<lparr>passedPawns := p, pkeval := k, pkentry := e\<rparr>, ev0)),
              fst (?W (ei0\<lparr>passedPawns := p, pkeval := k, pkentry := e\<rparr>, ev0)))"
    by (simp add: evaluateQueens_def Let_def case_prod_beta ei0_def ev0_def attackedBy_pk_commute)
  have b: "evaluateQueens ei board c = (snd (?W (ei0, ev0)), fst (?W (ei0, ev0)))"
    by (simp add: evaluateQueens_def Let_def case_prod_beta ei0_def ev0_def)
  show ?thesis
    unfolding a b w by simp
qed

section \<open>What the loops add up\<close>

text \<open>
  What \<^verbatim>\<open>evaluateRooks\<close> returns: for each rook of the side, the file bonus, the bonus
  for the seventh rank and the mobility term. None of them reads what the loop writes.
\<close>

lemma evaluateRooks_sum:
  "fst (evaluateRooks ei board US) =
     (\<Sum>n \<in> squaresOf (pieces board ROOK AND colours board US).
        (if (pieces board PAWN AND colours board US) AND Files (fileOf (int n)) = 0
         then RookFile ! of_bool ((pieces board PAWN AND colours board (notColour US))
                                   AND Files (fileOf (int n)) = 0)
         else 0)
        + (if relativeRankOf US (int n) = 6 \<and> 6 \<le> relativeRankOf US (kingSquare ei (notColour US))
           then RookOnSeventh else 0)
        + RookMobility ! nat (popcount (mobilityAreas ei US
                                         AND rookAttacks (int n) (occupiedMinusRooks ei US))))"
proof -
  define I where "I st \<longleftrightarrow> mobilityAreas st = mobilityAreas ei
      \<and> occupiedMinusRooks st = occupiedMinusRooks ei \<and> kingSquare st = kingSquare ei"
    for st :: EvalInfo
  define t where "t sq rest =
        (if (pieces board PAWN AND colours board US) AND Files (fileOf sq) = 0
         then RookFile ! of_bool ((pieces board PAWN AND colours board (notColour US))
                                   AND Files (fileOf sq) = 0)
         else 0)
        + (if relativeRankOf US sq = 6 \<and> 6 \<le> relativeRankOf US (kingSquare ei (notColour US))
           then RookOnSeventh else 0)
        + RookMobility ! nat (popcount (mobilityAreas ei US
                                         AND rookAttacks sq (occupiedMinusRooks ei US)))"
    for sq :: int and rest :: bitboard
  have step: "snd (evaluateRooks_step board US sq rest (st, e)) = e + t sq rest" if "I st"
    for sq rest st e
    using that by (simp add: evaluateRooks_step_def Let_def I_def t_def)
  have inv: "I (fst (evaluateRooks_step board US sq rest (st, e)))" if "I st" for sq rest st e
    using that by (simp add: evaluateRooks_step_def Let_def I_def)
  have I0: "I (ei\<lparr>attackedBy := (attackedBy ei)(US := (attackedBy ei US)(ROOK := 0))\<rparr>)"
    by (simp add: I_def)
  show ?thesis
    using whileBits_sum_on [of _ I "evaluateRooks_step board US" t, OF step inv I0,
        of "pieces board ROOK AND colours board US" 0]
    by (simp add: evaluateRooks_def Let_def t_def case_prod_beta)
qed

text \<open>
  One pass of the loop of \<^verbatim>\<open>evaluatePawns\<close> in the words of the spec, and what the loop
  leaves on a pawn-king cache miss: the passed pawns found, and the sum of the terms.
\<close>

lemma evaluatePawns_step_eq:
  "evaluatePawns_step board US sq rest (ei, pk) =
     (if stoppers board US sq = 0 then ei\<lparr>passedPawns := setBit (passedPawns ei) sq\<rparr> else ei,
      pk + (if stoppers board US sq = 0 then 0
            else if leftovers board US sq = 0
                    \<and> popcount (pushSupport board US sq) \<ge> popcount (pushThreats board US sq)
              then PawnCandidatePasser
                     ! of_bool (popcount (support board US sq) \<ge> popcount (threats board US sq))
                     ! nat (relativeRankOf US sq)
              else 0)
         + pawnStructureTerms ei board US sq rest)"
  by (simp add: evaluatePawns_step_def Let_def stoppers_def leftovers_def pushSupport_def
      pushThreats_def support_def threats_def pawnStructureTerms_def)

lemma evaluatePawns_miss:
  assumes "pkentry ei = None"
  shows "squaresOf (passedPawns (snd (evaluatePawns ei board US)))
         = squaresOf (passedPawns ei)
           \<union> {n \<in> squaresOf (pieces board PAWN AND colours board US). stoppers board US (int n) = 0}"
    and "pkeval (snd (evaluatePawns ei board US)) US
         = (\<Sum>n \<in> squaresOf (pieces board PAWN AND colours board US).
              (if stoppers board US (int n) = 0 then 0
               else if leftovers board US (int n) = 0
                       \<and> popcount (pushSupport board US (int n)) \<ge> popcount (pushThreats board US (int n))
                 then PawnCandidatePasser
                        ! of_bool (popcount (support board US (int n)) \<ge> popcount (threats board US (int n)))
                        ! nat (relativeRankOf US (int n))
                 else 0)
              + pawnStructureTerms ei board US (int n)
                  ((pieces board PAWN AND colours board US) AND NOT (mask (Suc n))))"
proof -
  let ?my = "pieces board PAWN AND colours board US"
  define ei4 where "ei4 = ei\<lparr>attackedBy2 := (attackedBy2 ei)(US := pawnAttacks ei US AND attacked ei US),
      attacked := (attacked ei)(US := attacked ei US OR pawnAttacks ei US),
      attackedBy := (attackedBy ei)(US := (attackedBy ei US)(PAWN := pawnAttacks ei US)),
      kingAttacksCount := (kingAttacksCount ei)(US := kingAttacksCount ei US
          + popcount (pawnAttacks ei US AND kingAreas ei (notColour US)))\<rparr>"
  define I where "I st \<longleftrightarrow> pawnAttacks st = pawnAttacks ei" for st :: EvalInfo
  define t where "t sq rest =
      (if stoppers board US sq = 0 then 0
       else if leftovers board US sq = 0
               \<and> popcount (pushSupport board US sq) \<ge> popcount (pushThreats board US sq)
         then PawnCandidatePasser
                ! of_bool (popcount (support board US sq) \<ge> popcount (threats board US sq))
                ! nat (relativeRankOf US sq)
         else 0)
      + pawnStructureTerms ei board US sq rest" for sq rest
  have res: "snd (evaluatePawns ei board US)
             = (fst (whileBits (evaluatePawns_step board US) ?my (ei4, 0)))
               \<lparr>pkeval := (pkeval (fst (whileBits (evaluatePawns_step board US) ?my (ei4, 0))))
                    (US := snd (whileBits (evaluatePawns_step board US) ?my (ei4, 0)))\<rparr>"
    using assms by (simp add: evaluatePawns_def Let_def ei4_def case_prod_beta)
  have pst: "pawnStructureTerms st board US sq rest = pawnStructureTerms ei board US sq rest"
    if "I st" for st sq rest
    using that by (simp add: pawnStructureTerms_def I_def)
  have step: "snd (evaluatePawns_step board US sq rest (st, e)) = e + t sq rest" if "I st"
    for sq rest st e
    by (simp add: evaluatePawns_step_eq t_def pst [OF that])
  have inv: "I (fst (evaluatePawns_step board US sq rest (st, e)))" if "I st" for sq rest st e
    using that by (simp add: evaluatePawns_step_eq I_def)
  have I4: "I ei4" by (simp add: I_def ei4_def)
  have pk: "snd (whileBits (evaluatePawns_step board US) ?my (ei4, 0))
            = (\<Sum>n \<in> squaresOf ?my. t (int n) (?my AND NOT (mask (Suc n))))"
    using whileBits_sum_on [of ?my I "evaluatePawns_step board US" t, OF step inv I4, of 0]
    by simp
  have ustep: "squaresOf (passedPawns (fst (evaluatePawns_step board US sq rest st)))
               = squaresOf (passedPawns (fst st))
                 \<union> (if stoppers board US sq = 0 then {nat sq} else {})"
    if "nat sq \<in> squaresOf ?my" "0 \<le> sq" for sq rest st
  proof -
    have "sq < 64" using squaresOf_bound [OF that(1)] that(2) by simp
    then show ?thesis
      by (cases st) (simp add: evaluatePawns_step_eq squaresOf_setBit that(2))
  qed
  have pp: "squaresOf (passedPawns (fst (whileBits (evaluatePawns_step board US) ?my (ei4, 0))))
            = squaresOf (passedPawns (fst (ei4, 0::int)))
              \<union> (\<Union>n \<in> squaresOf ?my. if stoppers board US (int n) = 0 then {nat (int n)} else {})"
    by (rule whileBits_union_on [where I = "\<lambda>_. True"]) (simp_all add: ustep)
  show "squaresOf (passedPawns (snd (evaluatePawns ei board US)))
         = squaresOf (passedPawns ei) \<union> {n \<in> squaresOf ?my. stoppers board US (int n) = 0}"
    unfolding res using pp by (auto simp: ei4_def split: if_splits)
  show "pkeval (snd (evaluatePawns ei board US)) US
         = (\<Sum>n \<in> squaresOf ?my.
              (if stoppers board US (int n) = 0 then 0
               else if leftovers board US (int n) = 0
                       \<and> popcount (pushSupport board US (int n)) \<ge> popcount (pushThreats board US (int n))
                 then PawnCandidatePasser
                        ! of_bool (popcount (support board US (int n)) \<ge> popcount (threats board US (int n)))
                        ! nat (relativeRankOf US (int n))
                 else 0)
              + pawnStructureTerms ei board US (int n) (?my AND NOT (mask (Suc n))))"
    unfolding res using pk by (simp add: t_def)
qed

section \<open>The hit path and the miss path\<close>

text \<open>
  Step by step through \<^verbatim>\<open>evaluatePieces\<close>: started from two scratchpads related by
  \<open>hitMiss\<close>, every evaluator returns the same value on both and leaves them related;
  the hit path never changes \<^verbatim>\<open>passedPawns\<close> and \<^verbatim>\<open>pkeval\<close>, and after the pawns the miss
  path never changes \<^verbatim>\<open>passedPawns\<close>.
\<close>

lemma hitMiss_fields:
  "hitMiss h m \<longleftrightarrow>
     pkentry h \<noteq> None \<and> pkentry m = None
     \<and> pawnAttacks h = pawnAttacks m \<and> rammedPawns h = rammedPawns m
     \<and> blockedPawns h = blockedPawns m \<and> kingAreas h = kingAreas m
     \<and> mobilityAreas h = mobilityAreas m \<and> attacked h = attacked m
     \<and> attackedBy2 h = attackedBy2 m \<and> attackedBy h = attackedBy m
     \<and> occupiedMinusBishops h = occupiedMinusBishops m
     \<and> occupiedMinusRooks h = occupiedMinusRooks m \<and> kingSquare h = kingSquare m
     \<and> kingAttacksCount h = kingAttacksCount m \<and> kingAttackersCount h = kingAttackersCount m
     \<and> kingAttackersWeight h = kingAttackersWeight m"
  by (cases h, cases m) (auto simp: hitMiss_def)

lemma hitMiss_I:
  "pkentry m = None \<Longrightarrow> e \<noteq> None \<Longrightarrow> hitMiss (m\<lparr>passedPawns := p, pkeval := k, pkentry := e\<rparr>) m"
  by (simp add: hitMiss_def)

lemma hitMiss_piece:
  assumes f: "\<And>ei p k e. ev (ei\<lparr>passedPawns := p, pkeval := k, pkentry := e\<rparr>)
                 = (fst (ev ei), (snd (ev ei))\<lparr>passedPawns := p, pkeval := k, pkentry := e\<rparr>)"
    and hm: "hitMiss h m"
  shows "fst (ev h) = fst (ev m)" and "hitMiss (snd (ev h)) (snd (ev m))"
    and "passedPawns (snd (ev h)) = passedPawns h" and "pkeval (snd (ev h)) = pkeval h"
    and "passedPawns (snd (ev m)) = passedPawns m"
proof -
  have h: "h = m\<lparr>passedPawns := passedPawns h, pkeval := pkeval h, pkentry := pkentry h\<rparr>"
    and ph: "pkentry h \<noteq> None" and pm: "pkentry m = None"
    using hm by (simp_all add: hitMiss_def)
  have eh: "ev h = (fst (ev m), (snd (ev m))\<lparr>passedPawns := passedPawns h, pkeval := pkeval h,
                                            pkentry := pkentry h\<rparr>)"
    by (subst h) (rule f)
  have "m = m\<lparr>passedPawns := passedPawns m, pkeval := pkeval m, pkentry := pkentry m\<rparr>" by simp
  then have "ev m = ev (m\<lparr>passedPawns := passedPawns m, pkeval := pkeval m, pkentry := pkentry m\<rparr>)"
    by simp
  then have em: "ev m = (fst (ev m), (snd (ev m))\<lparr>passedPawns := passedPawns m, pkeval := pkeval m,
                                            pkentry := pkentry m\<rparr>)"
    by (simp only: f)
  have sm: "snd (ev m) = (snd (ev m))\<lparr>passedPawns := passedPawns m, pkeval := pkeval m,
                                            pkentry := pkentry m\<rparr>"
    using em by (metis snd_conv)
  have pem: "pkentry (snd (ev m)) = None"
    by (subst sm) (simp add: pm)
  show "fst (ev h) = fst (ev m)" by (simp add: eh)
  show "hitMiss (snd (ev h)) (snd (ev m))" by (simp add: eh hitMiss_def ph pem)
  show "passedPawns (snd (ev h)) = passedPawns h" by (simp add: eh)
  show "pkeval (snd (ev h)) = pkeval h" by (simp add: eh)
  show "passedPawns (snd (ev m)) = passedPawns m" by (subst sm) simp
qed

lemma evaluatePawns_hit:
  "pkentry ei \<noteq> None \<Longrightarrow> evaluatePawns ei board c
     = (0, ei\<lparr>attackedBy2 := (attackedBy2 ei)(c := pawnAttacks ei c AND attacked ei c),
             attacked := (attacked ei)(c := attacked ei c OR pawnAttacks ei c),
             attackedBy := (attackedBy ei)(c := (attackedBy ei c)(PAWN := pawnAttacks ei c)),
             kingAttacksCount := (kingAttacksCount ei)(c := kingAttacksCount ei c
                 + popcount (pawnAttacks ei c AND kingAreas ei (notColour c)))\<rparr>)"
  by (simp add: evaluatePawns_def Let_def)

lemma evaluatePawns_miss_frame:
  assumes "pkentry ei = None"
  shows "\<exists>p k. evaluatePawns ei board c
     = (0, ei\<lparr>attackedBy2 := (attackedBy2 ei)(c := pawnAttacks ei c AND attacked ei c),
             attacked := (attacked ei)(c := attacked ei c OR pawnAttacks ei c),
             attackedBy := (attackedBy ei)(c := (attackedBy ei c)(PAWN := pawnAttacks ei c)),
             kingAttacksCount := (kingAttacksCount ei)(c := kingAttacksCount ei c
                 + popcount (pawnAttacks ei c AND kingAreas ei (notColour c))),
             passedPawns := p, pkeval := k\<rparr>)"
proof -
  define ei4 where "ei4 = ei\<lparr>attackedBy2 := (attackedBy2 ei)(c := pawnAttacks ei c AND attacked ei c),
             attacked := (attacked ei)(c := attacked ei c OR pawnAttacks ei c),
             attackedBy := (attackedBy ei)(c := (attackedBy ei c)(PAWN := pawnAttacks ei c)),
             kingAttacksCount := (kingAttacksCount ei)(c := kingAttacksCount ei c
                 + popcount (pawnAttacks ei c AND kingAreas ei (notColour c)))\<rparr>"
  let ?W = "whileBits (evaluatePawns_step board c) (pieces board PAWN AND colours board c) (ei4, 0)"
  have "(\<lambda>s. \<exists>p. fst s = ei4\<lparr>passedPawns := p\<rparr>) ?W"
  proof (rule whileBits_invariant_on)
    show "\<exists>p. fst (ei4, 0::int) = ei4\<lparr>passedPawns := p\<rparr>"
      by (rule exI [of _ "passedPawns ei4"]) simp
  next
    fix sq rest and s :: "EvalInfo \<times> int"
    assume "\<exists>p. fst s = ei4\<lparr>passedPawns := p\<rparr>"
    then obtain p where p: "fst s = ei4\<lparr>passedPawns := p\<rparr>" ..
    show "\<exists>p. fst (evaluatePawns_step board c sq rest s) = ei4\<lparr>passedPawns := p\<rparr>"
      by (cases s) (use p in \<open>auto simp: evaluatePawns_step_eq\<close>)
  qed
  then obtain p where p: "fst ?W = ei4\<lparr>passedPawns := p\<rparr>" ..
  have "evaluatePawns ei board c = (0, (fst ?W)\<lparr>pkeval := (pkeval (fst ?W))(c := snd ?W)\<rparr>)"
    using assms by (simp add: evaluatePawns_def Let_def ei4_def case_prod_beta)
  then have "evaluatePawns ei board c
             = (0, ei4\<lparr>passedPawns := p, pkeval := (pkeval ei4)(c := snd ?W)\<rparr>)"
    by (simp add: p)
  then show ?thesis unfolding ei4_def by blast
qed

lemma hitMiss_pawns:
  assumes hm: "hitMiss h m"
  shows "fst (evaluatePawns h board c) = fst (evaluatePawns m board c)"
    and "hitMiss (snd (evaluatePawns h board c)) (snd (evaluatePawns m board c))"
    and "passedPawns (snd (evaluatePawns h board c)) = passedPawns h"
    and "pkeval (snd (evaluatePawns h board c)) = pkeval h"
proof -
  have h: "h = m\<lparr>passedPawns := passedPawns h, pkeval := pkeval h, pkentry := pkentry h\<rparr>"
    and ph: "pkentry h \<noteq> None" and pm: "pkentry m = None"
    using hm by (simp_all add: hitMiss_def)
  obtain p k where m': "evaluatePawns m board c
     = (0, m\<lparr>attackedBy2 := (attackedBy2 m)(c := pawnAttacks m c AND attacked m c),
             attacked := (attacked m)(c := attacked m c OR pawnAttacks m c),
             attackedBy := (attackedBy m)(c := (attackedBy m c)(PAWN := pawnAttacks m c)),
             kingAttacksCount := (kingAttacksCount m)(c := kingAttacksCount m c
                 + popcount (pawnAttacks m c AND kingAreas m (notColour c))),
             passedPawns := p, pkeval := k\<rparr>)"
    using evaluatePawns_miss_frame [OF pm] by blast
  note h' = evaluatePawns_hit [OF ph, of board c]
  have stat: "attackedBy2 h = attackedBy2 m" "attacked h = attacked m" "attackedBy h = attackedBy m"
    "kingAttacksCount h = kingAttacksCount m" "pawnAttacks h = pawnAttacks m" "kingAreas h = kingAreas m"
    by (subst h, simp)+
  show "fst (evaluatePawns h board c) = fst (evaluatePawns m board c)"
    by (simp add: h' m')
  show "passedPawns (snd (evaluatePawns h board c)) = passedPawns h" by (simp add: h')
  show "pkeval (snd (evaluatePawns h board c)) = pkeval h" by (simp add: h')
  show "hitMiss (snd (evaluatePawns h board c)) (snd (evaluatePawns m board c))"
    using hm unfolding h' m' by (simp add: hitMiss_fields)
qed


lemma kingSafetyCount_hitMiss:
  assumes "hitMiss h m"
  shows "kingSafetyCount h board c = kingSafetyCount m board c"
proof -
  have f: "attacked h = attacked m" "attackedBy h = attackedBy m" "attackedBy2 h = attackedBy2 m"
    "kingSquare h = kingSquare m" "kingAreas h = kingAreas m"
    "kingAttacksCount h = kingAttacksCount m" "kingAttackersCount h = kingAttackersCount m"
    "kingAttackersWeight h = kingAttackersWeight m"
    using assms by (simp_all add: hitMiss_fields)
  show ?thesis
    unfolding kingSafetyCount_def f by (rule refl)
qed

lemma evaluateKings_step_pkeval:
  "\<exists>k. evaluateKings_step board c fl (m\<lparr>pkeval := k0\<rparr>) = m\<lparr>pkeval := k\<rparr>"
proof -
  have "evaluateKings_step board c fl st = st\<lparr>pkeval := pkeval (evaluateKings_step board c fl st)\<rparr>"
    for st
    unfolding evaluateKings_step_def Let_def by simp
  from this [of "m\<lparr>pkeval := k0\<rparr>"]
  have "evaluateKings_step board c fl (m\<lparr>pkeval := k0\<rparr>)
        = m\<lparr>pkeval := pkeval (evaluateKings_step board c fl (m\<lparr>pkeval := k0\<rparr>))\<rparr>"
    by simp
  then show ?thesis by blast
qed

lemma hitMiss_kings:
  assumes hm: "hitMiss h m"
  shows "fst (evaluateKings h board c) = fst (evaluateKings m board c)"
    and "hitMiss (snd (evaluateKings h board c)) (snd (evaluateKings m board c))"
    and "passedPawns (snd (evaluateKings h board c)) = passedPawns h"
    and "pkeval (snd (evaluateKings h board c)) = pkeval h"
    and "passedPawns (snd (evaluateKings m board c)) = passedPawns m"
proof -
  have ph: "pkentry h \<noteq> None" and pm: "pkentry m = None"
    and f: "kingSquare h = kingSquare m" "kingAreas h = kingAreas m"
      "kingAttackersCount h = kingAttackersCount m"
    using hm by (simp_all add: hitMiss_fields)
  have sh: "snd (evaluateKings h board c) = h"
    using ph by (simp add: evaluateKings_def Let_def)
  let ?files = "[max 0 (fileOf (kingSquare m c) - 1) .. min 7 (fileOf (kingSquare m c) + 1)]"
  have "(\<lambda>st. \<exists>k. st = m\<lparr>pkeval := k\<rparr>) (fold (evaluateKings_step board c) ?files m)"
  proof (rule fold_invariant_set)
    show "\<exists>k. m = m\<lparr>pkeval := k\<rparr>" by (rule exI [of _ "pkeval m"]) simp
  next
    fix x and s :: EvalInfo
    assume "\<exists>k. s = m\<lparr>pkeval := k\<rparr>"
    then obtain k0 where "s = m\<lparr>pkeval := k0\<rparr>" ..
    then show "\<exists>k. evaluateKings_step board c x s = m\<lparr>pkeval := k\<rparr>"
      using evaluateKings_step_pkeval [where board = board and c = c and fl = x and m = m and ?k0.0 = k0] by simp
  qed
  then obtain k where k: "fold (evaluateKings_step board c) ?files m = m\<lparr>pkeval := k\<rparr>" ..
  have sm: "snd (evaluateKings m board c) = m\<lparr>pkeval := k\<rparr>"
    using pm by (simp add: evaluateKings_def Let_def k)
  show "fst (evaluateKings h board c) = fst (evaluateKings m board c)"
    by (simp add: evaluateKings_def Let_def f kingSafetyCount_hitMiss [OF hm])
  show "hitMiss (snd (evaluateKings h board c)) (snd (evaluateKings m board c))"
    using hm unfolding sh sm by (simp add: hitMiss_fields)
  show "passedPawns (snd (evaluateKings h board c)) = passedPawns h" by (simp add: sh)
  show "pkeval (snd (evaluateKings h board c)) = pkeval h" by (simp add: sh)
  show "passedPawns (snd (evaluateKings m board c)) = passedPawns m" by (simp add: sm)
qed

lemma evaluatePassedPawns_hitMiss:
  assumes "hitMiss h m" and "passedPawns h = passedPawns m"
  shows "evaluatePassedPawns h board c = evaluatePassedPawns m board c"
proof -
  have f: "attacked h = attacked m" "kingSquare h = kingSquare m"
    using assms(1) by (simp_all add: hitMiss_fields)
  have "evaluatePassedPawns_step h board c = evaluatePassedPawns_step m board c"
    by (intro ext) (simp add: evaluatePassedPawns_step_def f)
  then show ?thesis
    by (simp add: evaluatePassedPawns_def assms(2))
qed

lemma evaluateThreats_hitMiss:
  assumes "hitMiss h m"
  shows "evaluateThreats h board c = evaluateThreats m board c"
proof -
  have f: "attacked h = attacked m" "attackedBy h = attackedBy m" "attackedBy2 h = attackedBy2 m"
    using assms(1) by (simp_all add: hitMiss_fields)
  show ?thesis
    unfolding evaluateThreats_def f by (rule refl)
qed

lemma evaluatePieces_hitMiss:
  assumes hm: "hitMiss h m"
    and pp: "passedPawns h = passedPawns (snd (evaluatePieces m board))"
  shows "fst (evaluatePieces h board) = fst (evaluatePieces m board)"
    and "pkeval (snd (evaluatePieces h board)) = pkeval h"
    and "hitMiss (snd (evaluatePieces h board)) (snd (evaluatePieces m board))"
proof -
  define h1 where "h1 = snd (evaluatePawns h board WHITE)"
  define m1 where "m1 = snd (evaluatePawns m board WHITE)"
  define v1 where "v1 = fst (evaluatePawns m board WHITE)"
  note s1 = hitMiss_pawns [OF hm, of board WHITE]
  have hm1: "hitMiss h1 m1" using s1(2) by (simp add: h1_def m1_def)
  have eh1: "evaluatePawns h board WHITE = (v1, h1)"
    using s1(1) by (simp add: h1_def v1_def prod_eq_iff)
  have em1: "evaluatePawns m board WHITE = (v1, m1)"
    by (simp add: m1_def v1_def)
  have ph1: "passedPawns h1 = passedPawns h" "pkeval h1 = pkeval h"
    using s1(3) s1(4)  by (simp_all add: h1_def)
  define h2 where "h2 = snd (evaluatePawns h1 board BLACK)"
  define m2 where "m2 = snd (evaluatePawns m1 board BLACK)"
  define v2 where "v2 = fst (evaluatePawns m1 board BLACK)"
  note s2 = hitMiss_pawns [OF hm1, of board BLACK]
  have hm2: "hitMiss h2 m2" using s2(2) by (simp add: h2_def m2_def)
  have eh2: "evaluatePawns h1 board BLACK = (v2, h2)"
    using s2(1) by (simp add: h2_def v2_def prod_eq_iff)
  have em2: "evaluatePawns m1 board BLACK = (v2, m2)"
    by (simp add: m2_def v2_def)
  have ph2: "passedPawns h2 = passedPawns h" "pkeval h2 = pkeval h"
    using s2(3) s2(4) ph1 by (simp_all add: h2_def)
  define h3 where "h3 = snd (evaluateKnights h2 board WHITE)"
  define m3 where "m3 = snd (evaluateKnights m2 board WHITE)"
  define v3 where "v3 = fst (evaluateKnights m2 board WHITE)"
  note s3 = hitMiss_piece [of "\<lambda>ei. evaluateKnights ei board WHITE", OF evaluateKnights_pk hm2]
  have hm3: "hitMiss h3 m3" using s3(2) by (simp add: h3_def m3_def)
  have eh3: "evaluateKnights h2 board WHITE = (v3, h3)"
    using s3(1) by (simp add: h3_def v3_def prod_eq_iff)
  have em3: "evaluateKnights m2 board WHITE = (v3, m3)"
    by (simp add: m3_def v3_def)
  have ph3: "passedPawns h3 = passedPawns h" "pkeval h3 = pkeval h"
    using s3(3) s3(4) ph2 by (simp_all add: h3_def)
  have pm3: "passedPawns m3 = passedPawns m2"
    using s3(5)  by (simp add: m3_def)
  define h4 where "h4 = snd (evaluateKnights h3 board BLACK)"
  define m4 where "m4 = snd (evaluateKnights m3 board BLACK)"
  define v4 where "v4 = fst (evaluateKnights m3 board BLACK)"
  note s4 = hitMiss_piece [of "\<lambda>ei. evaluateKnights ei board BLACK", OF evaluateKnights_pk hm3]
  have hm4: "hitMiss h4 m4" using s4(2) by (simp add: h4_def m4_def)
  have eh4: "evaluateKnights h3 board BLACK = (v4, h4)"
    using s4(1) by (simp add: h4_def v4_def prod_eq_iff)
  have em4: "evaluateKnights m3 board BLACK = (v4, m4)"
    by (simp add: m4_def v4_def)
  have ph4: "passedPawns h4 = passedPawns h" "pkeval h4 = pkeval h"
    using s4(3) s4(4) ph3 by (simp_all add: h4_def)
  have pm4: "passedPawns m4 = passedPawns m2"
    using s4(5) pm3 by (simp add: m4_def)
  define h5 where "h5 = snd (evaluateBishops h4 board WHITE)"
  define m5 where "m5 = snd (evaluateBishops m4 board WHITE)"
  define v5 where "v5 = fst (evaluateBishops m4 board WHITE)"
  note s5 = hitMiss_piece [of "\<lambda>ei. evaluateBishops ei board WHITE", OF evaluateBishops_pk hm4]
  have hm5: "hitMiss h5 m5" using s5(2) by (simp add: h5_def m5_def)
  have eh5: "evaluateBishops h4 board WHITE = (v5, h5)"
    using s5(1) by (simp add: h5_def v5_def prod_eq_iff)
  have em5: "evaluateBishops m4 board WHITE = (v5, m5)"
    by (simp add: m5_def v5_def)
  have ph5: "passedPawns h5 = passedPawns h" "pkeval h5 = pkeval h"
    using s5(3) s5(4) ph4 by (simp_all add: h5_def)
  have pm5: "passedPawns m5 = passedPawns m2"
    using s5(5) pm4 by (simp add: m5_def)
  define h6 where "h6 = snd (evaluateBishops h5 board BLACK)"
  define m6 where "m6 = snd (evaluateBishops m5 board BLACK)"
  define v6 where "v6 = fst (evaluateBishops m5 board BLACK)"
  note s6 = hitMiss_piece [of "\<lambda>ei. evaluateBishops ei board BLACK", OF evaluateBishops_pk hm5]
  have hm6: "hitMiss h6 m6" using s6(2) by (simp add: h6_def m6_def)
  have eh6: "evaluateBishops h5 board BLACK = (v6, h6)"
    using s6(1) by (simp add: h6_def v6_def prod_eq_iff)
  have em6: "evaluateBishops m5 board BLACK = (v6, m6)"
    by (simp add: m6_def v6_def)
  have ph6: "passedPawns h6 = passedPawns h" "pkeval h6 = pkeval h"
    using s6(3) s6(4) ph5 by (simp_all add: h6_def)
  have pm6: "passedPawns m6 = passedPawns m2"
    using s6(5) pm5 by (simp add: m6_def)
  define h7 where "h7 = snd (evaluateRooks h6 board WHITE)"
  define m7 where "m7 = snd (evaluateRooks m6 board WHITE)"
  define v7 where "v7 = fst (evaluateRooks m6 board WHITE)"
  note s7 = hitMiss_piece [of "\<lambda>ei. evaluateRooks ei board WHITE", OF evaluateRooks_pk hm6]
  have hm7: "hitMiss h7 m7" using s7(2) by (simp add: h7_def m7_def)
  have eh7: "evaluateRooks h6 board WHITE = (v7, h7)"
    using s7(1) by (simp add: h7_def v7_def prod_eq_iff)
  have em7: "evaluateRooks m6 board WHITE = (v7, m7)"
    by (simp add: m7_def v7_def)
  have ph7: "passedPawns h7 = passedPawns h" "pkeval h7 = pkeval h"
    using s7(3) s7(4) ph6 by (simp_all add: h7_def)
  have pm7: "passedPawns m7 = passedPawns m2"
    using s7(5) pm6 by (simp add: m7_def)
  define h8 where "h8 = snd (evaluateRooks h7 board BLACK)"
  define m8 where "m8 = snd (evaluateRooks m7 board BLACK)"
  define v8 where "v8 = fst (evaluateRooks m7 board BLACK)"
  note s8 = hitMiss_piece [of "\<lambda>ei. evaluateRooks ei board BLACK", OF evaluateRooks_pk hm7]
  have hm8: "hitMiss h8 m8" using s8(2) by (simp add: h8_def m8_def)
  have eh8: "evaluateRooks h7 board BLACK = (v8, h8)"
    using s8(1) by (simp add: h8_def v8_def prod_eq_iff)
  have em8: "evaluateRooks m7 board BLACK = (v8, m8)"
    by (simp add: m8_def v8_def)
  have ph8: "passedPawns h8 = passedPawns h" "pkeval h8 = pkeval h"
    using s8(3) s8(4) ph7 by (simp_all add: h8_def)
  have pm8: "passedPawns m8 = passedPawns m2"
    using s8(5) pm7 by (simp add: m8_def)
  define h9 where "h9 = snd (evaluateQueens h8 board WHITE)"
  define m9 where "m9 = snd (evaluateQueens m8 board WHITE)"
  define v9 where "v9 = fst (evaluateQueens m8 board WHITE)"
  note s9 = hitMiss_piece [of "\<lambda>ei. evaluateQueens ei board WHITE", OF evaluateQueens_pk hm8]
  have hm9: "hitMiss h9 m9" using s9(2) by (simp add: h9_def m9_def)
  have eh9: "evaluateQueens h8 board WHITE = (v9, h9)"
    using s9(1) by (simp add: h9_def v9_def prod_eq_iff)
  have em9: "evaluateQueens m8 board WHITE = (v9, m9)"
    by (simp add: m9_def v9_def)
  have ph9: "passedPawns h9 = passedPawns h" "pkeval h9 = pkeval h"
    using s9(3) s9(4) ph8 by (simp_all add: h9_def)
  have pm9: "passedPawns m9 = passedPawns m2"
    using s9(5) pm8 by (simp add: m9_def)
  define h10 where "h10 = snd (evaluateQueens h9 board BLACK)"
  define m10 where "m10 = snd (evaluateQueens m9 board BLACK)"
  define v10 where "v10 = fst (evaluateQueens m9 board BLACK)"
  note s10 = hitMiss_piece [of "\<lambda>ei. evaluateQueens ei board BLACK", OF evaluateQueens_pk hm9]
  have hm10: "hitMiss h10 m10" using s10(2) by (simp add: h10_def m10_def)
  have eh10: "evaluateQueens h9 board BLACK = (v10, h10)"
    using s10(1) by (simp add: h10_def v10_def prod_eq_iff)
  have em10: "evaluateQueens m9 board BLACK = (v10, m10)"
    by (simp add: m10_def v10_def)
  have ph10: "passedPawns h10 = passedPawns h" "pkeval h10 = pkeval h"
    using s10(3) s10(4) ph9 by (simp_all add: h10_def)
  have pm10: "passedPawns m10 = passedPawns m2"
    using s10(5) pm9 by (simp add: m10_def)
  define h11 where "h11 = snd (evaluateKings h10 board WHITE)"
  define m11 where "m11 = snd (evaluateKings m10 board WHITE)"
  define v11 where "v11 = fst (evaluateKings m10 board WHITE)"
  note s11 = hitMiss_kings [OF hm10, of board WHITE]
  have hm11: "hitMiss h11 m11" using s11(2) by (simp add: h11_def m11_def)
  have eh11: "evaluateKings h10 board WHITE = (v11, h11)"
    using s11(1) by (simp add: h11_def v11_def prod_eq_iff)
  have em11: "evaluateKings m10 board WHITE = (v11, m11)"
    by (simp add: m11_def v11_def)
  have ph11: "passedPawns h11 = passedPawns h" "pkeval h11 = pkeval h"
    using s11(3) s11(4) ph10 by (simp_all add: h11_def)
  have pm11: "passedPawns m11 = passedPawns m2"
    using s11(5) pm10 by (simp add: m11_def)
  define h12 where "h12 = snd (evaluateKings h11 board BLACK)"
  define m12 where "m12 = snd (evaluateKings m11 board BLACK)"
  define v12 where "v12 = fst (evaluateKings m11 board BLACK)"
  note s12 = hitMiss_kings [OF hm11, of board BLACK]
  have hm12: "hitMiss h12 m12" using s12(2) by (simp add: h12_def m12_def)
  have eh12: "evaluateKings h11 board BLACK = (v12, h12)"
    using s12(1) by (simp add: h12_def v12_def prod_eq_iff)
  have em12: "evaluateKings m11 board BLACK = (v12, m12)"
    by (simp add: m12_def v12_def)
  have ph12: "passedPawns h12 = passedPawns h" "pkeval h12 = pkeval h"
    using s12(3) s12(4) ph11 by (simp_all add: h12_def)
  have pm12: "passedPawns m12 = passedPawns m2"
    using s12(5) pm11 by (simp add: m12_def)
  have fm: "evaluatePieces m board
            = (0 + (v1 - v2) + (v3 - v4) + (v5 - v6) + (v7 - v8) + (v9 - v10) + (v11 - v12)
                 + (evaluatePassedPawns m12 board WHITE - evaluatePassedPawns m12 board BLACK)
                 + (evaluateThreats m12 board WHITE - evaluateThreats m12 board BLACK), m12)"
    by (simp add: evaluatePieces_def Let_def em1 em2 em3 em4 em5 em6 em7 em8 em9 em10 em11 em12)
  have fh: "evaluatePieces h board
            = (0 + (v1 - v2) + (v3 - v4) + (v5 - v6) + (v7 - v8) + (v9 - v10) + (v11 - v12)
                 + (evaluatePassedPawns h12 board WHITE - evaluatePassedPawns h12 board BLACK)
                 + (evaluateThreats h12 board WHITE - evaluateThreats h12 board BLACK), h12)"
    by (simp add: evaluatePieces_def Let_def eh1 eh2 eh3 eh4 eh5 eh6 eh7 eh8 eh9 eh10 eh11 eh12)
  have "passedPawns h12 = passedPawns m12"
    using pp ph12(1) by (simp add: fm)
  then have "evaluatePassedPawns h12 board c = evaluatePassedPawns m12 board c" for c
    by (rule evaluatePassedPawns_hitMiss [OF hm12])
  moreover have "evaluateThreats h12 board c = evaluateThreats m12 board c" for c
    by (rule evaluateThreats_hitMiss [OF hm12])
  ultimately show "fst (evaluatePieces h board) = fst (evaluatePieces m board)"
    by (simp add: fm fh)
  show "pkeval (snd (evaluatePieces h board)) = pkeval h"
    by (simp add: fh ph12)
  show "hitMiss (snd (evaluatePieces h board)) (snd (evaluatePieces m board))"
    by (simp add: fh fm hm12)
qed


lemma evaluatePieces_keeps_miss:
  assumes "pkentry m = None"
  shows "pkentry (snd (evaluatePieces m board)) = None"
proof -
  define e0 where "e0 = \<lparr>entry_pkhash = 0, entry_passed = 0, entry_eval = 0\<rparr>"
  define h where "h = m\<lparr>passedPawns := passedPawns (snd (evaluatePieces m board)),
                        pkeval := pkeval m, pkentry := Some e0\<rparr>"
  have hm: "hitMiss h m" unfolding h_def by (rule hitMiss_I [OF assms]) simp
  have "passedPawns h = passedPawns (snd (evaluatePieces m board))" by (simp add: h_def)
  from evaluatePieces_hitMiss(3) [OF hm this] show ?thesis
    by (simp add: hitMiss_fields)
qed

lemma initializeEvalInfo_None: "pkentry (initializeEvalInfo board None) = None"
  unfolding initializeEvalInfo_def Let_def by simp

lemma initializeEvalInfo_miss:
  "getPawnKingEntry table (pkhash board) = None
   \<Longrightarrow> initializeEvalInfo board (Some table) = initializeEvalInfo board None"
  unfolding initializeEvalInfo_def Let_def by (simp cong: if_cong)

lemma initializeEvalInfo_hit:
  assumes "getPawnKingEntry table (pkhash board) = Some e"
  shows "hitMiss (initializeEvalInfo board (Some table)) (initializeEvalInfo board None)"
    and "passedPawns (initializeEvalInfo board (Some table)) = entry_passed e"
    and "pkeval (initializeEvalInfo board (Some table)) = (\<lambda>c. if c = WHITE then entry_eval e else 0)"
    and "pkentry (initializeEvalInfo board (Some table)) = Some e"
  using assms unfolding initializeEvalInfo_def Let_def hitMiss_fields by (simp_all cong: if_cong)

lemma evaluateBoard_fst:
  "fst (evaluateBoard scale board pktable) =
     (let (pieceEval, ei) = evaluatePieces (initializeEvalInfo board pktable) board;
          total = pieceEval + (pkeval ei WHITE - pkeval ei BLACK + psqtmat board + Tempo (turn board));
          mg = ScoreMG total;
          eg = ScoreEG total;
          phase = gamePhase board;
          blend = cdiv (mg * (256 - phase)
                        + cdiv (eg * phase * scale (evaluateScaleFactor board)) (scale SCALE_NORMAL)) 256
      in if turn board = BLACK then - blend else blend)"
  by (cases "turn board") (simp_all add: evaluateBoard_def Let_def split: prod.splits)

lemma evaluateBoard_hit:
  assumes e: "getPawnKingEntry table (pkhash board) = Some e"
    and p: "entry_passed e = passedPawns (snd (evaluatePieces (initializeEvalInfo board None) board))"
    and k: "entry_eval e = pkeval (snd (evaluatePieces (initializeEvalInfo board None) board)) WHITE
                          - pkeval (snd (evaluatePieces (initializeEvalInfo board None) board)) BLACK"
  shows "fst (evaluateBoard scale board (Some table)) = fst (evaluateBoard scale board None)"
proof -
  let ?h = "initializeEvalInfo board (Some table)"
  let ?m = "initializeEvalInfo board None"
  note i = initializeEvalInfo_hit [OF e]
  have pp: "passedPawns ?h = passedPawns (snd (evaluatePieces ?m board))"
    using i(2) p by simp
  note r = evaluatePieces_hitMiss [OF i(1) pp]
  have "pkeval (snd (evaluatePieces ?h board)) WHITE - pkeval (snd (evaluatePieces ?h board)) BLACK
        = pkeval (snd (evaluatePieces ?m board)) WHITE - pkeval (snd (evaluatePieces ?m board)) BLACK"
    using k by (simp add: r(2) i(3))
  then show ?thesis
    unfolding evaluateBoard_fst Let_def case_prod_beta r(1) by simp
qed

lemma evaluateBoard_miss:
  assumes "getPawnKingEntry table (pkhash board) = None"
  shows "evaluateBoard scale board (Some table)
         = (fst (evaluateBoard scale board None),
            Some (storePawnKingEntry table (pkhash board)
                    (passedPawns (snd (evaluatePieces (initializeEvalInfo board None) board)))
                    (pkeval (snd (evaluatePieces (initializeEvalInfo board None) board)) WHITE
                     - pkeval (snd (evaluatePieces (initializeEvalInfo board None) board)) BLACK)))"
proof -
  note n = evaluatePieces_keeps_miss [OF initializeEvalInfo_None, of board]
  show ?thesis
    unfolding evaluateBoard_def initializeEvalInfo_miss [OF assms] Let_def case_prod_beta
    by (simp add: n)
qed

lemma getPawnKingEntry_store:
  "getPawnKingEntry (storePawnKingEntry table hash p v) hash
   = Some \<lparr>entry_pkhash = hash, entry_passed = p, entry_eval = v\<rparr>"
  by (simp add: getPawnKingEntry_def storePawnKingEntry_def)

section \<open>Pawns of one file\<close>

lemma all64: "list_all P [0..<64] \<Longrightarrow> n < 64 \<Longrightarrow> P n"
  by (simp add: list_all_iff)

lemma bit_fileA: "bit (0x0101010101010101 :: bitboard) m \<longleftrightarrow> m < 64 \<and> m mod 8 = 0"
proof (cases "m < 64")
  case True
  have "list_all (\<lambda>m. bit (0x0101010101010101 :: bitboard) m \<longleftrightarrow> m mod 8 = 0) [0..<64]"
    by code_simp
  from all64 [OF this True] True show ?thesis by simp
next
  case False
  then show ?thesis by (auto dest: bit64)
qed

lemma squaresOf_Files:
  assumes "0 \<le> f" "f < 8"
  shows "squaresOf (Files f) = {n. n < 64 \<and> int (n mod 8) = f}"
proof -
  have "bit (Files f) n \<longleftrightarrow> n < 64 \<and> int (n mod 8) = f" for n
  proof -
    have "bit (Files f) n \<longleftrightarrow> nat f \<le> n \<and> n < 64 \<and> bit (0x0101010101010101 :: bitboard) (n - nat f)"
      unfolding Files_def bit_push_bit_iff by (auto dest: bit64)
    also have "\<dots> \<longleftrightarrow> nat f \<le> n \<and> n < 64 \<and> (n - nat f) mod 8 = 0"
      unfolding bit_fileA by auto
    also have "\<dots> \<longleftrightarrow> n < 64 \<and> int (n mod 8) = f"
      using assms by (auto simp: mod_eq_dvd_iff_nat) presburger+
    finally show ?thesis .
  qed
  then show ?thesis by (simp add: squaresOf_def)
qed

lemma stackedHits_card:
  "distinct order \<Longrightarrow>
   stackedHits f order = card {sq \<in> set order. fileOf (int sq) = f} - 1"
proof (induction order)
  case Nil
  then show ?case by simp
next
  case (Cons sq later)
  let ?F = "{x \<in> set later. fileOf (int x) = f}"
  have fin: "finite ?F" by simp
  show ?case
  proof (cases "fileOf (int sq) = f")
    case True
    then have eq: "{x \<in> set (sq # later). fileOf (int x) = f} = insert sq ?F" by auto
    have notin: "sq \<notin> ?F" using Cons.prems by simp
    have card: "card (insert sq ?F) = Suc (card ?F)"
      using fin notin by simp
    have ex: "list_ex (\<lambda>sq'. fileOf (int sq') = fileOf (int sq)) later \<longleftrightarrow> ?F \<noteq> {}"
      using True by (auto simp: list_ex_iff)
    have "?F \<noteq> {} \<longleftrightarrow> 0 < card ?F" using fin by (simp add: card_gt_0_iff)
    with Cons True ex eq card show ?thesis by (cases "card ?F") auto
  next
    case False
    then have "{x \<in> set (sq # later). fileOf (int x) = f} = ?F" by auto
    with Cons False show ?thesis by simp
  qed
qed

lemma stacked_test_iff:
  assumes f: "0 \<le> f" "f < 8" and n: "n \<in> squaresOf bb" "fileOf (int n) = f"
  shows "Files (fileOf (int n)) AND (bb AND NOT (mask (Suc n))) \<noteq> 0
         \<longleftrightarrow> n \<noteq> Max {m \<in> squaresOf bb. fileOf (int m) = f}"
proof -
  let ?F = "{m \<in> squaresOf bb. fileOf (int m) = f}"
  have fin: "finite ?F" by simp
  have nF: "n \<in> ?F" using n by simp
  have "squaresOf (Files f AND (bb AND NOT (mask (Suc n)))) = {m \<in> ?F. n < m}"
    unfolding squaresOf_and squaresOf_Files [OF f]
    by (auto simp: squaresOf_def bit_and_iff bit_not_iff bit_mask_iff fileOf_def zmod_int
             dest: bit64)
  then have "Files f AND (bb AND NOT (mask (Suc n))) \<noteq> 0 \<longleftrightarrow> {m \<in> ?F. n < m} \<noteq> {}"
    by (simp flip: squaresOf_empty_iff)
  also have "\<dots> \<longleftrightarrow> n \<noteq> Max ?F"
  proof
    assume "{m \<in> ?F. n < m} \<noteq> {}"
    then obtain m where "m \<in> ?F" "n < m" by blast
    then have "m \<le> Max ?F" "n < m" using Max_ge [OF fin, of m] by blast+
    then have "n < Max ?F" by linarith
    then show "n \<noteq> Max ?F" by simp
  next
    assume "n \<noteq> Max ?F"
    moreover have "n \<le> Max ?F" using Max_ge [OF fin nF] .
    ultimately have "n < Max ?F" by simp
    moreover have "Max ?F \<in> ?F" using Max_in [OF fin] nF by blast
    ultimately show "{m \<in> ?F. n < m} \<noteq> {}" by blast
  qed
  finally show ?thesis using n by simp
qed

lemma popcount_file:
  assumes "0 \<le> f" "f < 8"
  shows "popcount (bb AND Files f) = int (card {m \<in> squaresOf bb. fileOf (int m) = f})"
proof -
  have "squaresOf (bb AND Files f) = {m \<in> squaresOf bb. fileOf (int m) = f}"
    unfolding squaresOf_and squaresOf_Files [OF assms]
    by (auto simp: squaresOf_def fileOf_def zmod_int dest: bit64)
  then show ?thesis by (simp add: popcount_card)
qed

lemma stacked_sum_file:
  assumes f: "0 \<le> f" "f < 8" and k: "1 \<le> popcount (bb AND Files f)"
  shows "(\<Sum>n | n \<in> squaresOf bb \<and> fileOf (int n) = f.
            pawnStackedTerm (int n) (bb AND NOT (mask (Suc n))))
         = (popcount (bb AND Files f) - 1) * PawnStacked"
proof -
  let ?F = "{m \<in> squaresOf bb. fileOf (int m) = f}"
  have fin: "finite ?F" by simp
  have card: "1 \<le> card ?F" using k popcount_file [OF f, of bb] by simp
  then have ne: "?F \<noteq> {}" by (intro notI) simp
  have mx: "Max ?F \<in> ?F" using Max_in [OF fin ne] .
  have "(\<Sum>n \<in> ?F. pawnStackedTerm (int n) (bb AND NOT (mask (Suc n))))
        = (\<Sum>n \<in> ?F. if n = Max ?F then 0 else PawnStacked)"
  proof (rule sum.cong [OF refl])
    fix n assume "n \<in> ?F"
    then have n: "n \<in> squaresOf bb" "fileOf (int n) = f" by simp_all
    show "pawnStackedTerm (int n) (bb AND NOT (mask (Suc n)))
          = (if n = Max ?F then 0 else PawnStacked)"
      unfolding pawnStackedTerm_def using stacked_test_iff [OF f n] by simp
  qed
  also have "\<dots> = (\<Sum>n \<in> ?F - {Max ?F}. PawnStacked)"
    using fin by (simp add: sum.If_cases Diff_eq Int_def)
  also have "\<dots> = int (card ?F - 1) * PawnStacked"
    using mx fin by simp
  also have "\<dots> = (popcount (bb AND Files f) - 1) * PawnStacked"
    using card popcount_file [OF f, of bb] by simp
  finally show ?thesis .
qed

lemma stacked_sum_total:
  "(\<Sum>n \<in> squaresOf bb. pawnStackedTerm (int n) (bb AND NOT (mask (Suc n))))
   = (\<Sum>f \<in> {0..7}. if popcount (bb AND Files f) = 0 then 0
                       else (popcount (bb AND Files f) - 1) * PawnStacked)"
proof -
  let ?h = "\<lambda>n. pawnStackedTerm (int n) (bb AND NOT (mask (Suc n)))"
  have img: "(\<lambda>n. fileOf (int n)) ` squaresOf bb \<subseteq> {0..7}"
    by (auto simp: fileOf_def)
  have "sum ?h (squaresOf bb)
        = (\<Sum>f \<in> {0..7}. \<Sum>n | n \<in> squaresOf bb \<and> fileOf (int n) = f. ?h n)"
    by (rule sum.group [OF finite_squaresOf _ img, symmetric]) simp
  also have "\<dots> = (\<Sum>f \<in> {0..7}. if popcount (bb AND Files f) = 0 then 0
                       else (popcount (bb AND Files f) - 1) * PawnStacked)"
  proof (rule sum.cong [OF refl])
    fix f :: int assume "f \<in> {0..7}"
    then have f: "0 \<le> f" "f < 8" by simp_all
    show "(\<Sum>n | n \<in> squaresOf bb \<and> fileOf (int n) = f. ?h n)
          = (if popcount (bb AND Files f) = 0 then 0
             else (popcount (bb AND Files f) - 1) * PawnStacked)"
    proof (cases "popcount (bb AND Files f) = 0")
      case True
      then have "{m \<in> squaresOf bb. fileOf (int m) = f} = {}"
        using popcount_file [OF f, of bb] by simp
      then have "(\<Sum>n | n \<in> squaresOf bb \<and> fileOf (int n) = f. ?h n) = 0"
        by (simp only: sum.empty)
      with True show ?thesis by simp
    next
      case False
      then have "1 \<le> popcount (bb AND Files f)"
        using popcount_nonneg [of "bb AND Files f"] by linarith
      from stacked_sum_file [OF f this] False show ?thesis by simp
    qed
  qed
  finally show ?thesis .
qed

lemma pawnStructureTerms_split:
  "pawnStructureTerms ei board US sq rest
   = pawnOtherTerms ei board US sq + pawnStackedTerm sq rest"
  by (simp add: pawnStructureTerms_def pawnOtherTerms_def pawnStackedTerm_def Let_def)

lemma evaluatePawns_stacked:
  assumes "pkentry ei = None"
  shows "pkeval (snd (evaluatePawns ei board US)) US
         = (\<Sum>n \<in> squaresOf (pieces board PAWN AND colours board US).
              pawnCandidateTerm board US (int n) + pawnOtherTerms ei board US (int n))
           + (\<Sum>f \<in> {0..7}.
                if popcount ((pieces board PAWN AND colours board US) AND Files f) = 0 then 0
                else (popcount ((pieces board PAWN AND colours board US) AND Files f) - 1)
                     * PawnStacked)"
  unfolding evaluatePawns_miss(2) [OF assms] pawnStructureTerms_split
    stacked_sum_total [symmetric] pawnCandidateTerm_def [symmetric]
  by (simp add: sum.distrib algebra_simps)

lemma squaresOf_list: "squaresOf bb = set (filter (bit bb) [0..<64])"
  by (auto simp: squaresOf_def dest: bit64)


section \<open>The final blend\<close>

text \<open>
  C1. \<^verbatim>\<open>evaluateBoard\<close> returns the tapered blend of the accumulated white-perspective
  score: the sum of the piece evaluations, the difference of the two pawn-king
  evaluations, \<^verbatim>\<open>psqtmat\<close> and the tempo of the side to move. With \<open>mg\<close> and \<open>eg\<close> its two
  halves, the result is \<open>(mg * (256 - phase) + eg * phase * factor / SCALE_NORMAL) / 256\<close>
  in C's division, negated exactly when Black is to move.
\<close>

theorem evaluateBoard_blend:
  "fst (evaluateBoard scale board pktable) =
     (let (pieceEval, ei) = evaluatePieces (initializeEvalInfo board pktable) board;
          total = pieceEval + (pkeval ei WHITE - pkeval ei BLACK + psqtmat board + Tempo (turn board));
          mg = ScoreMG total;
          eg = ScoreEG total;
          phase = gamePhase board;
          blend = cdiv (mg * (256 - phase)
                        + cdiv (eg * phase * scale (evaluateScaleFactor board)) (scale SCALE_NORMAL)) 256
      in if turn board = BLACK then - blend else blend)"
  by (rule evaluateBoard_fst)

section \<open>The game phase\<close>

text \<open>
  C4, as amended. The code does not clamp the material count. With the knights and the
  bishops on different squares, the phase is
  \<open>24 - 4 * queens - 2 * rooks - knights - bishops\<close>, remapped by
  \<open>(phase * 256 + 12) / 24\<close> in C's truncating division. Where the count is not
  negative this is the clamped value of the spec; where it is negative (more
  material than the initial position has) the phase is negative and the spec's value
  is 0. The initial position gives 0 and two bare kings give 256.
\<close>

theorem gamePhase_unclamped:
  assumes "pieces board KNIGHT AND pieces board BISHOP = 0"
  shows "(let raw = 24 - 4 * popcount (pieces board QUEEN) - 2 * popcount (pieces board ROOK)
                   - popcount (pieces board KNIGHT) - popcount (pieces board BISHOP)
          in gamePhase board = cdiv (raw * 256 + 12) 24
             \<and> (if 0 \<le> raw then gamePhase board = specPhase board
                 else gamePhase board < 0 \<and> specPhase board = 0))
         \<and> gamePhase startPosition = 0 \<and> gamePhase bareKings = 256"
proof -
  define raw where "raw = 24 - 4 * popcount (pieces board QUEEN) - 2 * popcount (pieces board ROOK)
                   - popcount (pieces board KNIGHT) - popcount (pieces board BISHOP)"
  have g: "gamePhase board = cdiv (raw * 256 + 12) 24"
    by (simp add: gamePhase_def raw_def popcount_or_disjoint [OF assms])
  have s: "specPhase board = (max 0 raw * 256 + 12) div 24"
    by (simp add: specPhase_def raw_def algebra_simps)
  have pos: "0 \<le> raw \<Longrightarrow> gamePhase board = specPhase board"
    by (simp add: g s cdiv_nonneg)
  have neg1: "raw < 0 \<Longrightarrow> specPhase board = 0"
    by (simp add: s max_def)
  have neg2: "gamePhase board < 0" if "raw < 0"
  proof -
    from that have "raw * 256 + 12 < 0" by simp
    moreover from that have "24 \<le> \<bar>raw * 256 + 12\<bar>" by simp
    then have "1 \<le> \<bar>raw * 256 + 12\<bar> div 24"
      using zdiv_mono1 [of 24 "\<bar>raw * 256 + 12\<bar>" 24] by simp
    ultimately show ?thesis
      by (simp add: g cdiv_def sgn_if)
  qed
  have a: "gamePhase startPosition = 0" by code_simp
  have b: "gamePhase bareKings = 256" by code_simp
  show ?thesis
    using g pos neg1 neg2 a b by (simp add: raw_def Let_def)
qed

theorem gamePhase_unclamped_witness:
  "pieces startPosition KNIGHT AND pieces startPosition BISHOP = 0
   \<and> gamePhase startPosition = specPhase startPosition"
proof -
  have h: "pieces startPosition KNIGHT AND pieces startPosition BISHOP = 0" by code_simp
  have r: "24 - 4 * popcount (pieces startPosition QUEEN) - 2 * popcount (pieces startPosition ROOK)
           - popcount (pieces startPosition KNIGHT) - popcount (pieces startPosition BISHOP) = 0"
    by code_simp
  show ?thesis
    using h gamePhase_unclamped [OF h] by (simp add: Let_def r)
qed

text \<open>
  The claim as stated fails after a promotion: with three queens, four rooks, four
  knights and four bishops the count is \<open>-4\<close> and the code's phase is \<open>-42\<close>, where the
  clamped phase of the spec is 0.
\<close>

theorem gamePhase_clamp_counterexample:
  "gamePhase promotedQueen = -42 \<and> specPhase promotedQueen = 0"
  by code_simp

section \<open>Rooks\<close>

text \<open>
  C9, as amended. \<^verbatim>\<open>RookOnSeventh\<close> is added for a rook if and only if the rook's relative
  rank is 6 counted from 0 (the seventh rank) and the enemy king's relative rank is at
  least 6 (one of the last two ranks).
\<close>

theorem rookOnSeventh_bonus:
  "fst (evaluateRooks ei board US) =
     (\<Sum>n \<in> squaresOf (pieces board ROOK AND colours board US).
        (if (pieces board PAWN AND colours board US) AND Files (fileOf (int n)) = 0
         then RookFile ! of_bool ((pieces board PAWN AND colours board (notColour US))
                                   AND Files (fileOf (int n)) = 0)
         else 0)
        + (if relativeRankOf US (int n) = 6 \<and> 6 \<le> relativeRankOf US (kingSquare ei (notColour US))
           then RookOnSeventh else 0)
        + RookMobility ! nat (popcount (mobilityAreas ei US
                                         AND rookAttacks (int n) (occupiedMinusRooks ei US))))"
  by (rule evaluateRooks_sum)

text \<open>
  The claim as stated fails both ways. A rook on a7 facing a king on e8 has relative
  rank 6, not 7, and gets the bonus; a rook on a8 has relative rank 7, the king on e8
  too, and gets none.
\<close>

theorem rookOnSeventh_counterexample:
  "\<not> claimedRookOnSeventh (initializeEvalInfo rookOnA7 None) WHITE 48
   \<and> fst (evaluateRooks (initializeEvalInfo rookOnA7 None) rookOnA7 WHITE)
       = RookFile ! 1 + RookOnSeventh + RookMobility ! 14
   \<and> claimedRookOnSeventh (initializeEvalInfo rookOnA8 None) WHITE 56
   \<and> fst (evaluateRooks (initializeEvalInfo rookOnA8 None) rookOnA8 WHITE)
       = RookFile ! 1 + RookMobility ! 11"
proof -
  have a1: "\<not> claimedRookOnSeventh (initializeEvalInfo rookOnA7 None) WHITE 48"
    by code_simp
  have a2: "claimedRookOnSeventh (initializeEvalInfo rookOnA8 None) WHITE 56"
    by code_simp
  have "pieces rookOnA7 ROOK AND colours rookOnA7 WHITE = 2 ^ 48"
    by (simp add: rookOnA7_def)
  then have r7: "squaresOf (pieces rookOnA7 ROOK AND colours rookOnA7 WHITE) = {48}"
    by (simp only: squaresOf_single)
  have "pieces rookOnA8 ROOK AND colours rookOnA8 WHITE = 2 ^ 56"
    by (simp add: rookOnA8_def)
  then have r8: "squaresOf (pieces rookOnA8 ROOK AND colours rookOnA8 WHITE) = {56}"
    by (simp only: squaresOf_single)
  have f7: "(pieces rookOnA7 PAWN AND colours rookOnA7 WHITE) AND Files (fileOf 48) = 0"
       "(pieces rookOnA7 PAWN AND colours rookOnA7 BLACK) AND Files (fileOf 48) = 0"
       "relativeRankOf WHITE 48 = 6"
       "6 \<le> relativeRankOf WHITE (kingSquare (initializeEvalInfo rookOnA7 None) BLACK)"
    by code_simp+
  have m7: "popcount (mobilityAreas (initializeEvalInfo rookOnA7 None) WHITE
              AND rookAttacks 48 (occupiedMinusRooks (initializeEvalInfo rookOnA7 None) WHITE)) = 14"
    by code_simp
  have f8: "(pieces rookOnA8 PAWN AND colours rookOnA8 WHITE) AND Files (fileOf 56) = 0"
       "(pieces rookOnA8 PAWN AND colours rookOnA8 BLACK) AND Files (fileOf 56) = 0"
       "relativeRankOf WHITE 56 = 7"
    by code_simp+
  have m8: "popcount (mobilityAreas (initializeEvalInfo rookOnA8 None) WHITE
              AND rookAttacks 56 (occupiedMinusRooks (initializeEvalInfo rookOnA8 None) WHITE)) = 11"
    by code_simp
  have b1: "fst (evaluateRooks (initializeEvalInfo rookOnA7 None) rookOnA7 WHITE)
       = RookFile ! 1 + RookOnSeventh + RookMobility ! 14"
    unfolding evaluateRooks_sum r7 by (simp add: f7 m7)
  have b2: "fst (evaluateRooks (initializeEvalInfo rookOnA8 None) rookOnA8 WHITE)
       = RookFile ! 1 + RookMobility ! 11"
    unfolding evaluateRooks_sum r8 by (simp add: f8 m8)
  show ?thesis using a1 a2 b1 b2 by simp
qed

section \<open>Pawns\<close>

text \<open>
  C7. On a pawn-king cache miss, a pawn whose stoppers are empty has its square added
  to \<^verbatim>\<open>passedPawns\<close> and gets no bonus for it; a pawn with stoppers gets
  \<^verbatim>\<open>PawnCandidatePasser[|support| >= |threats|][relativeRank]\<close> if its leftovers are empty
  and \<open>|pushSupport| \<ge> |pushThreats|\<close>; no pawn gets both, and \<^verbatim>\<open>passedPawns\<close> gains
  no other square. The remaining terms of a pawn are added in either case.
\<close>

theorem pawn_passed_or_candidate:
  assumes "pkentry ei = None"
  shows "squaresOf (passedPawns (snd (evaluatePawns ei board US)))
         = squaresOf (passedPawns ei)
           \<union> {n \<in> squaresOf (pieces board PAWN AND colours board US). stoppers board US (int n) = 0}
       \<and> pkeval (snd (evaluatePawns ei board US)) US
         = (\<Sum>n \<in> squaresOf (pieces board PAWN AND colours board US).
              (if stoppers board US (int n) = 0 then 0
               else if leftovers board US (int n) = 0
                       \<and> popcount (pushSupport board US (int n)) \<ge> popcount (pushThreats board US (int n))
                 then PawnCandidatePasser
                        ! of_bool (popcount (support board US (int n)) \<ge> popcount (threats board US (int n)))
                        ! nat (relativeRankOf US (int n))
                 else 0)
              + pawnStructureTerms ei board US (int n)
                  ((pieces board PAWN AND colours board US) AND NOT (mask (Suc n))))"
  using evaluatePawns_miss [OF assms] by simp

theorem pawn_passed_or_candidate_witness:
  "pkentry (initializeEvalInfo startPosition None) = None
   \<and> squaresOf (passedPawns (snd (evaluatePawns (initializeEvalInfo startPosition None) startPosition WHITE)))
       = squaresOf (passedPawns (initializeEvalInfo startPosition None))
         \<union> {n \<in> squaresOf (pieces startPosition PAWN AND colours startPosition WHITE).
              stoppers startPosition WHITE (int n) = 0}"
proof -
  have h: "pkentry (initializeEvalInfo startPosition None) = None"
    by (simp add: initializeEvalInfo_def Let_def)
  show ?thesis
    using h pawn_passed_or_candidate [OF h, of startPosition WHITE] by simp
qed

section \<open>Stacked pawns\<close>

text \<open>
  C8. On a pawn-king cache miss, for a file \<open>f\<close> on which a side has \<open>k \<ge> 1\<close> pawns, the
  stacked-pawn penalties that the pawn loop charges to the pawns of that file add up to
  \<open>(k - 1) * PawnStacked\<close>; under any order of iteration the test
  "a later-processed own pawn shares the file" fires \<open>k - 1\<close> times on that file; and the
  side's pawn evaluation is the sum of the other pawn terms plus \<open>(k - 1) * PawnStacked\<close>
  for every file that holds a pawn.
\<close>

theorem pawnStacked_per_file:
  assumes "pkentry ei = None" and "0 \<le> f" and "f < 8"
    and "1 \<le> popcount ((pieces board PAWN AND colours board US) AND Files f)"
    and "distinct order"
    and "set order = squaresOf (pieces board PAWN AND colours board US)"
  shows "(\<Sum>n | n \<in> squaresOf (pieces board PAWN AND colours board US) \<and> fileOf (int n) = f.
            pawnStackedTerm (int n) ((pieces board PAWN AND colours board US) AND NOT (mask (Suc n))))
         = (popcount ((pieces board PAWN AND colours board US) AND Files f) - 1) * PawnStacked
       \<and> int (stackedHits f order)
         = popcount ((pieces board PAWN AND colours board US) AND Files f) - 1
       \<and> pkeval (snd (evaluatePawns ei board US)) US
         = (\<Sum>n \<in> squaresOf (pieces board PAWN AND colours board US).
              pawnCandidateTerm board US (int n) + pawnOtherTerms ei board US (int n)
              + pawnStackedTerm (int n)
                  ((pieces board PAWN AND colours board US) AND NOT (mask (Suc n))))
       \<and> pkeval (snd (evaluatePawns ei board US)) US
         = (\<Sum>n \<in> squaresOf (pieces board PAWN AND colours board US).
              pawnCandidateTerm board US (int n) + pawnOtherTerms ei board US (int n))
           + (\<Sum>f \<in> {0..7}.
                if popcount ((pieces board PAWN AND colours board US) AND Files f) = 0 then 0
                else (popcount ((pieces board PAWN AND colours board US) AND Files f) - 1)
                     * PawnStacked)"
proof -
  let ?bb = "pieces board PAWN AND colours board US"
  have k: "1 \<le> int (card {m \<in> squaresOf ?bb. fileOf (int m) = f})"
    using assms(4) popcount_file [OF assms(2,3), of ?bb] by simp
  have "int (stackedHits f order) = int (card {m \<in> squaresOf ?bb. fileOf (int m) = f}) - 1"
    using stackedHits_card [OF assms(5), of f] k assms(6) by simp
  then have hits: "int (stackedHits f order) = popcount (?bb AND Files f) - 1"
    using popcount_file [OF assms(2,3), of ?bb] by simp
  have third: "pkeval (snd (evaluatePawns ei board US)) US
         = (\<Sum>n \<in> squaresOf ?bb.
              pawnCandidateTerm board US (int n) + pawnOtherTerms ei board US (int n)
              + pawnStackedTerm (int n) (?bb AND NOT (mask (Suc n))))"
    unfolding evaluatePawns_miss(2) [OF assms(1)] pawnStructureTerms_split
      pawnCandidateTerm_def [symmetric]
    by (simp add: algebra_simps)
  show ?thesis
    using stacked_sum_file [OF assms(2,3,4)] hits third evaluatePawns_stacked [OF assms(1)]
    by blast
qed

theorem pawnStacked_per_file_witness:
  "pkentry (initializeEvalInfo tripledPawns None) = None
   \<and> 1 \<le> popcount ((pieces tripledPawns PAWN AND colours tripledPawns WHITE) AND Files 0)
   \<and> distinct [16, 24, 8 :: nat]
   \<and> set [16, 24, 8] = squaresOf (pieces tripledPawns PAWN AND colours tripledPawns WHITE)
   \<and> (\<Sum>n | n \<in> squaresOf (pieces tripledPawns PAWN AND colours tripledPawns WHITE)
              \<and> fileOf (int n) = 0.
         pawnStackedTerm (int n)
           ((pieces tripledPawns PAWN AND colours tripledPawns WHITE) AND NOT (mask (Suc n))))
       = 2 * PawnStacked
   \<and> int (stackedHits 0 [16, 24, 8]) = 2"
proof -
  have h: "pkentry (initializeEvalInfo tripledPawns None) = None"
    by (simp add: initializeEvalInfo_def Let_def)
  have k: "popcount ((pieces tripledPawns PAWN AND colours tripledPawns WHITE) AND Files 0) = 3"
    by code_simp
  have "filter (bit (pieces tripledPawns PAWN AND colours tripledPawns WHITE)) [0..<64]
        = [8, 16, 24]"
    by code_simp
  then have s: "set [16, 24, 8] = squaresOf (pieces tripledPawns PAWN AND colours tripledPawns WHITE)"
    unfolding squaresOf_list by auto
  have d: "distinct [16, 24, 8 :: nat]" by simp
  have k1: "1 \<le> popcount ((pieces tripledPawns PAWN AND colours tripledPawns WHITE) AND Files 0)"
    unfolding k by simp
  show ?thesis
    using pawnStacked_per_file [OF h _ _ k1 d s] h k1 d s unfolding k by simp
qed

section \<open>The scale factor\<close>

lemma opposite_bishops_iff:
  assumes ok: "occupancyOK board"
  shows "onlyOne (colours board WHITE AND pieces board BISHOP)
         \<and> onlyOne (colours board BLACK AND pieces board BISHOP)
         \<and> onlyOne (pieces board BISHOP AND WHITE_SQUARES)
         \<longleftrightarrow> oppositeBishops board"
proof (cases "popcount (colours board WHITE AND pieces board BISHOP) = 1
              \<and> popcount (colours board BLACK AND pieces board BISHOP) = 1")
  case False
  then show ?thesis by (auto simp: onlyOne_iff oppositeBishops_def)
next
  case True
  let ?W = "colours board WHITE AND pieces board BISHOP"
  let ?B = "colours board BLACK AND pieces board BISHOP"
  let ?x = "nat (getlsb ?W)"
  let ?y = "nat (getlsb ?B)"
  have W: "squaresOf ?W = {?x}" and B: "squaresOf ?B = {?y}"
    using True by (simp_all add: popcount_one_squares)
  have nzW: "?W \<noteq> 0" and nzB: "?B \<noteq> 0"
    using W B squaresOf_empty_iff by auto
  have disj: "colours board WHITE AND colours board BLACK = 0"
    and within: "pieces board BISHOP AND NOT (colours board WHITE OR colours board BLACK) = 0"
    using ok by (simp_all add: occupancyOK_def allPieces_def)
  have "squaresOf (colours board WHITE) \<inter> squaresOf (colours board BLACK) = {}"
    using disj by (metis squaresOf_and squaresOf_0)
  then have xy: "?x \<noteq> ?y"
    using W B by (auto simp: squaresOf_and)
  have "squaresOf (pieces board BISHOP) \<subseteq> squaresOf (colours board WHITE) \<union> squaresOf (colours board BLACK)"
  proof
    fix n assume n: "n \<in> squaresOf (pieces board BISHOP)"
    have "\<not> bit (pieces board BISHOP AND NOT (colours board WHITE OR colours board BLACK)) n"
      unfolding within by simp
    then show "n \<in> squaresOf (colours board WHITE) \<union> squaresOf (colours board BLACK)"
      using n by (auto simp: squaresOf_def bit_and_iff bit_not_iff bit_or_iff dest: bit64)
  qed
  then have bish: "squaresOf (pieces board BISHOP) = {?x, ?y}"
    using W B by (auto simp: squaresOf_and)
  have "onlyOne (pieces board BISHOP AND WHITE_SQUARES)
        \<longleftrightarrow> card ({?x, ?y} \<inter> squaresOf WHITE_SQUARES) = 1"
    by (simp add: onlyOne_iff popcount_card squaresOf_and bish)
  also have "\<dots> \<longleftrightarrow> (?x \<in> squaresOf WHITE_SQUARES) \<noteq> (?y \<in> squaresOf WHITE_SQUARES)"
    using xy by (auto simp: Int_insert_left)
  also have "\<dots> \<longleftrightarrow> testBit WHITE_SQUARES (getlsb ?W) \<noteq> testBit WHITE_SQUARES (getlsb ?B)"
    using getlsb_props(1) [OF nzW] getlsb_props(1) [OF nzB] by (simp add: testBit_squares)
  finally show ?thesis
    using True by (simp add: onlyOne_iff oppositeBishops_def)
qed

text \<open>
  C6. On a board whose occupancy is consistent, \<^verbatim>\<open>evaluateScaleFactor\<close> returns
  \<^verbatim>\<open>SCALE_OCB_BISHOPS_ONLY\<close> exactly when each side has one bishop, the two on opposite
  colour complexes, and no knight, rook or queen is on the board;
  \<^verbatim>\<open>SCALE_OCB_ONE_KNIGHT\<close> exactly when the bishops are so, each side has one knight and
  there is no rook or queen; \<^verbatim>\<open>SCALE_OCB_ONE_ROOK\<close> exactly when the bishops are so, each
  side has one rook and there is no knight or queen; and \<^verbatim>\<open>SCALE_NORMAL\<close> in every other
  case.
\<close>

theorem scaleFactor_cases:
  assumes "occupancyOK board"
  shows "(evaluateScaleFactor board = SCALE_OCB_BISHOPS_ONLY
            \<longleftrightarrow> oppositeBishops board \<and> pieces board KNIGHT = 0 \<and> pieces board ROOK = 0
                \<and> pieces board QUEEN = 0)
       \<and> (evaluateScaleFactor board = SCALE_OCB_ONE_KNIGHT
            \<longleftrightarrow> oppositeBishops board
                \<and> popcount (colours board WHITE AND pieces board KNIGHT) = 1
                \<and> popcount (colours board BLACK AND pieces board KNIGHT) = 1
                \<and> pieces board ROOK = 0 \<and> pieces board QUEEN = 0)
       \<and> (evaluateScaleFactor board = SCALE_OCB_ONE_ROOK
            \<longleftrightarrow> oppositeBishops board
                \<and> popcount (colours board WHITE AND pieces board ROOK) = 1
                \<and> popcount (colours board BLACK AND pieces board ROOK) = 1
                \<and> pieces board KNIGHT = 0 \<and> pieces board QUEEN = 0)
       \<and> (evaluateScaleFactor board = SCALE_NORMAL
            \<longleftrightarrow> \<not> (oppositeBishops board
                    \<and> ((pieces board KNIGHT = 0 \<and> pieces board ROOK = 0 \<and> pieces board QUEEN = 0)
                       \<or> (popcount (colours board WHITE AND pieces board KNIGHT) = 1
                          \<and> popcount (colours board BLACK AND pieces board KNIGHT) = 1
                          \<and> pieces board ROOK = 0 \<and> pieces board QUEEN = 0)
                       \<or> (popcount (colours board WHITE AND pieces board ROOK) = 1
                          \<and> popcount (colours board BLACK AND pieces board ROOK) = 1
                          \<and> pieces board KNIGHT = 0 \<and> pieces board QUEEN = 0))))"
proof -
  have or0: "a OR b = 0 \<longleftrightarrow> a = 0 \<and> b = 0" for a b :: bitboard
    by (auto simp: bit_eq_iff bit_or_iff)
  have kn: "popcount (colours board WHITE AND pieces board KNIGHT) = 1 \<Longrightarrow> pieces board KNIGHT \<noteq> 0"
    by (auto simp: popcount_card)
  have rk: "popcount (colours board WHITE AND pieces board ROOK) = 1 \<Longrightarrow> pieces board ROOK \<noteq> 0"
    by (auto simp: popcount_card)
  show ?thesis
    using opposite_bishops_iff [OF assms] kn rk
    unfolding evaluateScaleFactor_def Let_def onlyOne_iff or0
    by (auto simp: and.commute)
qed

theorem scaleFactor_cases_witness:
  "occupancyOK bishopsOnly \<and> evaluateScaleFactor bishopsOnly = SCALE_OCB_BISHOPS_ONLY"
proof -
  have h: "occupancyOK bishopsOnly" by code_simp
  have "oppositeBishops bishopsOnly \<and> pieces bishopsOnly KNIGHT = 0
        \<and> pieces bishopsOnly ROOK = 0 \<and> pieces bishopsOnly QUEEN = 0"
    by code_simp
  then show ?thesis using h scaleFactor_cases [OF h] by simp
qed

section \<open>The pawn-king cache\<close>

text \<open>
  C3. Evaluating a position with a cache that misses returns the score of the
  evaluation without a cache and stores an entry; evaluating it again with the cache so
  warmed takes the hit path and returns the same score. More generally, any cache whose
  entry for the position holds the \<^verbatim>\<open>passedPawns\<close> set and the \<^verbatim>\<open>pkeval\<close> difference of the
  miss path gives the score of the miss path.
\<close>

theorem pawnKingCache_transparent:
  assumes "getPawnKingEntry table (pkhash board) = None"
  shows "(\<exists>table'. evaluateBoard scale board (Some table)
                    = (fst (evaluateBoard scale board None), Some table')
                  \<and> pkentry (initializeEvalInfo board (Some table')) \<noteq> None
                  \<and> fst (evaluateBoard scale board (Some table'))
                      = fst (evaluateBoard scale board None))
         \<and> (\<forall>warm e. getPawnKingEntry warm (pkhash board) = Some e
                \<and> entry_passed e
                    = passedPawns (snd (evaluatePieces (initializeEvalInfo board None) board))
                \<and> entry_eval e
                    = pkeval (snd (evaluatePieces (initializeEvalInfo board None) board)) WHITE
                      - pkeval (snd (evaluatePieces (initializeEvalInfo board None) board)) BLACK
                \<longrightarrow> fst (evaluateBoard scale board (Some warm))
                    = fst (evaluateBoard scale board None))"
proof -
  let ?m = "snd (evaluatePieces (initializeEvalInfo board None) board)"
  let ?t = "storePawnKingEntry table (pkhash board) (passedPawns ?m)
              (pkeval ?m WHITE - pkeval ?m BLACK)"
  note g = getPawnKingEntry_store [of table "pkhash board" "passedPawns ?m"
      "pkeval ?m WHITE - pkeval ?m BLACK"]
  have a: "evaluateBoard scale board (Some table) = (fst (evaluateBoard scale board None), Some ?t)"
    by (rule evaluateBoard_miss [OF assms])
  have b: "pkentry (initializeEvalInfo board (Some ?t)) \<noteq> None"
    using initializeEvalInfo_hit(4) [OF g] by simp
  have c: "fst (evaluateBoard scale board (Some ?t)) = fst (evaluateBoard scale board None)"
    by (rule evaluateBoard_hit [OF g]) simp_all
  have d: "fst (evaluateBoard scale board (Some warm)) = fst (evaluateBoard scale board None)"
    if "getPawnKingEntry warm (pkhash board) = Some e"
      and "entry_passed e = passedPawns ?m"
      and "entry_eval e = pkeval ?m WHITE - pkeval ?m BLACK" for warm e
    using that by (rule evaluateBoard_hit)
  show ?thesis using a b c d by blast
qed

theorem pawnKingCache_transparent_witness:
  "getPawnKingEntry (\<lambda>hash. None) (pkhash startPosition) = None
   \<and> (\<exists>table'. evaluateBoard (\<lambda>factor. 128) startPosition (Some (\<lambda>hash. None))
                    = (fst (evaluateBoard (\<lambda>factor. 128) startPosition None), Some table')
                  \<and> pkentry (initializeEvalInfo startPosition (Some table')) \<noteq> None
                  \<and> fst (evaluateBoard (\<lambda>factor. 128) startPosition (Some table'))
                      = fst (evaluateBoard (\<lambda>factor. 128) startPosition None))"
proof -
  have h: "getPawnKingEntry (\<lambda>hash. None) (pkhash startPosition) = None"
    by (simp add: getPawnKingEntry_def)
  show ?thesis
    using h pawnKingCache_transparent [OF h, of "\<lambda>factor. 128"] by blast
qed

end
